theory Spec2Isabelle
  imports Main "HOL-Library.AList" "HOL-Library.Multiset" "HOL-Library.Sublist"
begin

section \<open>libwget/net.c: resolving a host name\<close>

subsection \<open>Address chains and their ordering\<close>








subsection \<open>The resolve loop\<close>






















section \<open>src/mget.c: downloading one part of a metalink file\<close>

text \<open>
  The fields of \<^verbatim>\<open>PART\<close> and of \<^verbatim>\<open>MGET_HTTP_RESPONSE\<close> that the code reads. A
  \<^verbatim>\<open>NULL\<close> string or buffer is \<open>None\<close>, a \<^verbatim>\<open>NULL\<close> vector the empty list; a
  \<^verbatim>\<open>last_modified\<close> of 0 means that the header was absent.
\<close>

record PART =
  part_id :: nat
  position :: nat
  part_length :: nat
  part_done :: bool
  inuse :: bool

record http_challenge =
  auth_scheme :: string
  auth_params :: "(string \<times> string) list"

record http_response =
  code :: int
  header :: string
  body :: "string option"
  content_type :: "string option"
  content_filename :: "string option"
  location :: "string option"
  last_modified :: int
  keep_alive :: bool
  challenges :: "http_challenge list"
  links :: "string list"
  digests :: "string list"

text \<open>\<^verbatim>\<open>set_exit_status\<close>: the lowest non-zero status wins.\<close>

definition set_exit_status :: "int \<Rightarrow> int \<Rightarrow> int" where
  "set_exit_status exit_status status =
     (if exit_status \<noteq> 0
      then (if status < exit_status then status else exit_status)
      else status)"

text \<open>
  \<^verbatim>\<open>download_part\<close> works on the part \<^verbatim>\<open>downloader->part\<close>, which is an element
  of \<^verbatim>\<open>job->parts\<close>: the model holds the vector and the index of the part in it, so that
  a write to the part is seen by the loop over the vector. The outside world is a
  parameter: what \<^verbatim>\<open>http_get\<close> returns for a mirror at an attempt, whether
  \<^verbatim>\<open>open\<close> fails, what \<^verbatim>\<open>pwrite\<close> returns, and the verdict of
  \<^verbatim>\<open>job_validate_file\<close> (a function of job.c). The calls that leave the function are
  recorded as events; \<open>TryMirror\<close> is the status line that names the mirror of an attempt,
  \<open>QueueDel\<close> the call \<^verbatim>\<open>queue_del(job)\<close> for the job and \<open>QueueDelNull\<close> the call
  \<^verbatim>\<open>queue_del(NULL)\<close>, which \<^verbatim>\<open>downloader_thread\<close> makes for a job that is to stay
  on the queue.
\<close>

datatype part_event =
  TryMirror nat
| Pwrite nat string int
| LockDownloader
| PartsChecked bool
| UnlockDownloader
| ValidateFile bool
| QueueDel
| SignalMain
| SortMirrors
| SignalWorker
| QueueDelNull

record part_env =
  http_get_part :: "nat \<Rightarrow> nat \<Rightarrow> http_response option"
  open_fails :: "nat \<Rightarrow> bool"
  pwrite_returns :: "nat \<Rightarrow> int"
  job_validate_file :: "PART list \<Rightarrow> bool"

record part_state =
  parts :: "PART list"
  exit_status :: int
  events :: "part_event list"

text \<open>The body of the loop after \<^verbatim>\<open>http_get\<close> has returned a response.\<close>

definition store_part :: "part_env \<Rightarrow> nat \<Rightarrow> nat \<Rightarrow> http_response \<Rightarrow> part_state \<Rightarrow> part_state" where
  "store_part env ix tries msg s =
     (let part = parts s ! ix in
      if code msg \<noteq> 200 \<and> code msg \<noteq> 206 then s
      else case body msg of
        None \<Rightarrow> s
      | Some data \<Rightarrow>
          if length data \<noteq> part_length part then s
          else if open_fails env tries
          then s\<lparr>exit_status := set_exit_status (exit_status s) 3\<rparr>
          else
            (let nbytes = pwrite_returns env tries;
                 s1 = s\<lparr>events := events s @ [Pwrite (position part) data nbytes]\<rparr>
             in if nbytes = int (length data)
                then s1\<lparr>parts := (parts s1)[ix := part\<lparr>part_done := True\<rparr>]\<rparr>
                else s1))"

text \<open>
  One round of the loop: the status line, \<^verbatim>\<open>http_get\<close> on the mirror, and the
  handling of its response.
\<close>

definition download_part_attempt ::
  "part_env \<Rightarrow> nat \<Rightarrow> nat \<Rightarrow> nat \<Rightarrow> part_state \<Rightarrow> part_state"
where
  "download_part_attempt env ix tries mirror_index s =
     (let s1 = s\<lparr>events := events s @ [TryMirror mirror_index]\<rparr>
      in case http_get_part env mirror_index tries of
           None \<Rightarrow> s1
         | Some msg \<Rightarrow> store_part env ix tries msg s1)"

function download_part_loop ::
  "part_env \<Rightarrow> nat \<Rightarrow> nat \<Rightarrow> nat \<Rightarrow> nat \<Rightarrow> part_state \<Rightarrow> part_state"
where
  "download_part_loop env m ix tries mirror_index s =
     (if tries < m \<and> \<not> part_done (parts s ! ix)
      then download_part_loop env m ix (Suc tries) ((mirror_index + 1) mod m)
             (download_part_attempt env ix tries mirror_index s)
      else s)"
  by pat_completeness auto
termination
  by (relation "measure (\<lambda>(env, m, ix, tries, mirror_index, s). m - tries)") auto

declare download_part_loop.simps [simp del]

text \<open>The loop over \<^verbatim>\<open>job->parts\<close> that computes \<^verbatim>\<open>all_done\<close>.\<close>

fun all_done_loop :: "PART list \<Rightarrow> bool" where
  "all_done_loop [] = True"
| "all_done_loop (p # ps) = (if \<not> part_done p then False else all_done_loop ps)"

text \<open>
  \<^verbatim>\<open>download_part\<close> for the worker \<open>id\<close>, a metalink with \<open>m\<close> mirrors and the part
  at index \<open>ix\<close>. With no mirror the first line divides by zero, and an index outside
  the vector is no part of the job: both are \<open>None\<close>.
\<close>

definition download_part ::
  "part_env \<Rightarrow> nat \<Rightarrow> nat \<Rightarrow> nat \<Rightarrow> part_state \<Rightarrow> part_state option"
where
  "download_part env worker_id m ix s =
     (if m = 0 \<or> \<not> ix < length (parts s) then None
      else
        (let s1 = download_part_loop env m ix 0 (worker_id mod m) s
         in if part_done (parts s1 ! ix) then
              (let all_done = all_done_loop (parts s1);
                   s2 = s1\<lparr>events := events s1 @
                           [LockDownloader, PartsChecked all_done, UnlockDownloader]\<rparr>
               in if all_done then
                    (if job_validate_file env (parts s2)
                     then Some (s2\<lparr>events := events s2 @ [ValidateFile True, QueueDel, SignalMain]\<rparr>)
                     else Some (s2\<lparr>events := events s2 @ [ValidateFile False]\<rparr>))
                  else Some s2)
            else Some (s1\<lparr>parts := (parts s1)[ix := (parts s1 ! ix)\<lparr>inuse := False\<rparr>]\<rparr>)))"

text \<open>
  \<^verbatim>\<open>downloader_thread\<close> handles a job that has no part to download yet. The label
  \<^verbatim>\<open>ready\<close> at the end of its loop calls \<^verbatim>\<open>queue_del(job)\<close> and signals the main
  thread; the variable \<^verbatim>\<open>job\<close> has been set to \<^verbatim>\<open>NULL\<close> on the way when the job is
  not to be removed yet.
\<close>

definition ready :: "bool \<Rightarrow> part_state \<Rightarrow> part_state" where
  "ready job_is_null s =
     s\<lparr>events := events s @ [if job_is_null then QueueDelNull else QueueDel, SignalMain]\<rparr>"

text \<open>
  The fields of \<^verbatim>\<open>MGET_METALINK\<close> that \<^verbatim>\<open>downloader_thread\<close> tests: the size of the
  file and the vector of mirrors, \<open>None\<close> for \<^verbatim>\<open>NULL\<close>.
\<close>

record MGET_METALINK =
  metalink_size :: int
  metalink_mirrors :: "string list option"

text \<open>
  The branch of \<^verbatim>\<open>downloader_thread\<close> for a response that was parsed into the manifest
  \<^verbatim>\<open>job->metalink\<close> (\<^verbatim>\<open>if (job->metalink) { ... goto ready; }\<close>), up to the end of
  the loop body.
\<close>

definition metalink_loaded :: "part_env \<Rightarrow> MGET_METALINK \<Rightarrow> part_state \<Rightarrow> part_state" where
  "metalink_loaded env metalink s =
     (if metalink_size metalink \<le> 0 then ready False s
      else if metalink_mirrors metalink = None then ready False s
      else if \<not> job_validate_file env (parts s)
      then ready True (s\<lparr>events := events s @ [ValidateFile False, SortMirrors, SignalWorker]\<rparr>)
      else ready False (s\<lparr>events := events s @ [ValidateFile True]\<rparr>))"

text \<open>
  The branch for \<^verbatim>\<open>config.chunk_size\<close>, after a manifest without hashes has been built
  for a response longer than the chunk size: its size is positive and it has one mirror.
\<close>

definition chunks_loaded :: "part_env \<Rightarrow> part_state \<Rightarrow> part_state" where
  "chunks_loaded env s =
     (if \<not> job_validate_file env (parts s)
      then ready True (s\<lparr>events := events s @ [ValidateFile False, SignalWorker]\<rparr>)
      else ready False (s\<lparr>events := events s @ [ValidateFile True]\<rparr>))"

text \<open>Reading the events: the mirrors tried, in order, and a write that stored the part.\<close>

fun mirrors_tried :: "part_event list \<Rightarrow> nat list" where
  "mirrors_tried [] = []"
| "mirrors_tried (TryMirror i # es) = i # mirrors_tried es"
| "mirrors_tried (e # es) = mirrors_tried es"

fun stored :: "part_event \<Rightarrow> bool" where
  "stored (Pwrite pos data nbytes) = (nbytes = int (length data))"
| "stored e = False"

fun is_try :: "part_event \<Rightarrow> bool" where
  "is_try (TryMirror i) = True"
| "is_try e = False"

text \<open>The events of the loop: status lines and writes.\<close>

fun is_io :: "part_event \<Rightarrow> bool" where
  "is_io (TryMirror i) = True"
| "is_io (Pwrite pos data n) = True"
| "is_io e = False"

text \<open>
  Sample runs: a job of two parts, the first one stored already, and worker 4 of a
  metalink with three mirrors at work on the second. Mirror 1 does not answer and
  mirror 2 serves the part; or no mirror answers; or the file fails its checksum.
\<close>

definition sample_parts :: part_state where
  "sample_parts =
     \<lparr>parts = [\<lparr>part_id = 1, position = 0, part_length = 4, part_done = True, inuse = False\<rparr>,
               \<lparr>part_id = 2, position = 4, part_length = 4, part_done = False, inuse = True\<rparr>],
      exit_status = 0, events = []\<rparr>"

definition part_response :: http_response where
  "part_response =
     \<lparr>code = 206, header = [], body = Some ''abcd'', content_type = None,
      content_filename = None, location = None, last_modified = 0, keep_alive = True,
      challenges = [], links = [], digests = []\<rparr>"

definition env_mirror2 :: part_env where
  "env_mirror2 =
     \<lparr>http_get_part = (\<lambda>mirror tries. if mirror = 2 then Some part_response else None),
      open_fails = (\<lambda>tries. False), pwrite_returns = (\<lambda>tries. 4),
      job_validate_file = (\<lambda>ps. True)\<rparr>"

definition env_no_mirror :: part_env where
  "env_no_mirror =
     \<lparr>http_get_part = (\<lambda>mirror tries. None),
      open_fails = (\<lambda>tries. False), pwrite_returns = (\<lambda>tries. 4),
      job_validate_file = (\<lambda>ps. True)\<rparr>"

definition env_bad_checksum :: part_env where
  "env_bad_checksum =
     \<lparr>http_get_part = (\<lambda>mirror tries. if mirror = 2 then Some part_response else None),
      open_fails = (\<lambda>tries. False), pwrite_returns = (\<lambda>tries. 4),
      job_validate_file = (\<lambda>ps. False)\<rparr>"

definition stored_parts :: "PART list" where
  "stored_parts =
     [\<lparr>part_id = 1, position = 0, part_length = 4, part_done = True, inuse = False\<rparr>,
      \<lparr>part_id = 2, position = 4, part_length = 4, part_done = True, inuse = True\<rparr>]"

definition after_mirror2 :: part_state where
  "after_mirror2 =
     \<lparr>parts = stored_parts, exit_status = 0,
      events = [TryMirror 1, TryMirror 2, Pwrite 4 ''abcd'' 4, LockDownloader,
                PartsChecked True, UnlockDownloader, ValidateFile True, QueueDel,
                SignalMain]\<rparr>"

definition after_no_mirror :: part_state where
  "after_no_mirror =
     \<lparr>parts = [\<lparr>part_id = 1, position = 0, part_length = 4, part_done = True, inuse = False\<rparr>,
               \<lparr>part_id = 2, position = 4, part_length = 4, part_done = False, inuse = False\<rparr>],
      exit_status = 0,
      events = [TryMirror 1, TryMirror 2, TryMirror 0]\<rparr>"

definition after_bad_checksum :: part_state where
  "after_bad_checksum =
     \<lparr>parts = stored_parts, exit_status = 0,
      events = [TryMirror 1, TryMirror 2, Pwrite 4 ''abcd'' 4, LockDownloader,
                PartsChecked True, UnlockDownloader, ValidateFile False]\<rparr>"

text \<open>
  A job whose manifest has just been read, with no parts yet; a manifest for a file of
  length 0, and one for a file of 8 bytes on one mirror.
\<close>

definition fresh_job :: part_state where
  "fresh_job = \<lparr>parts = [], exit_status = 0, events = []\<rparr>"

definition empty_manifest :: MGET_METALINK where
  "empty_manifest = \<lparr>metalink_size = 0, metalink_mirrors = Some [''http://mirror/file'']\<rparr>"

definition sample_manifest :: MGET_METALINK where
  "sample_manifest = \<lparr>metalink_size = 8, metalink_mirrors = Some [''http://mirror/file'']\<rparr>"

section \<open>src/mget.c: one HTTP transaction\<close>

subsection \<open>Case-insensitive comparison\<close>

text \<open>
  \<^verbatim>\<open>strcasecmp\<close> and \<^verbatim>\<open>strncasecmp\<close> of the C library, in the C locale: the
  difference of the first two bytes that differ after folding to lower case, 0 for equal
  strings; the second one looks at the first \<open>n\<close> bytes at most.
\<close>

definition tolower :: "char \<Rightarrow> char" where
  "tolower c =
     (let n = of_char c :: nat in if 65 \<le> n \<and> n \<le> 90 then char_of (n + 32) else c)"

fun strcasecmp :: "string \<Rightarrow> string \<Rightarrow> int" where
  "strcasecmp [] [] = 0"
| "strcasecmp [] (b # bs) = - int (of_char (tolower b))"
| "strcasecmp (a # as) [] = int (of_char (tolower a))"
| "strcasecmp (a # as) (b # bs) =
     (if tolower a = tolower b then strcasecmp as bs
      else int (of_char (tolower a)) - int (of_char (tolower b)))"

definition strncasecmp :: "string \<Rightarrow> string \<Rightarrow> nat \<Rightarrow> int" where
  "strncasecmp a b n = strcasecmp (take n a) (take n b)"

subsection \<open>Choosing a challenge\<close>

text \<open>
  The loop of \<^verbatim>\<open>http_get\<close> over the challenges of a 401 response, started with
  \<^verbatim>\<open>selected_challenge = NULL\<close>. The first branch ends the loop.
\<close>

fun select_challenge :: "http_challenge list \<Rightarrow> http_challenge option \<Rightarrow> http_challenge option" where
  "select_challenge [] selected_challenge = selected_challenge"
| "select_challenge (challenge # rest) selected_challenge =
     (if strcasecmp (auth_scheme challenge) ''digest'' \<noteq> 0 then Some challenge
      else if strcasecmp (auth_scheme challenge) ''basic'' \<noteq> 0
      then select_challenge rest
             (if selected_challenge = None then Some challenge else selected_challenge)
      else select_challenge rest selected_challenge)"

subsection \<open>The request loop\<close>

text \<open>
  The fields of \<^verbatim>\<open>MGET_IRI\<close> that the downloader reads; \<^verbatim>\<open>dirlen\<close> is written by
  \<^verbatim>\<open>add_url_to_queue\<close>.
\<close>

record MGET_IRI =
  uri :: string
  scheme :: string
  host :: "string option"
  resolv_port :: string
  path :: "string option"
  query :: "string option"
  dirlen :: nat

text \<open>
  A request, as far as the loop decides it: the method, the target, the challenge handed
  to \<^verbatim>\<open>http_add_credentials\<close> (which writes the \<^verbatim>\<open>Authorization\<close> header for the
  scheme of that challenge) and the byte range of a part. The other header lines depend
  on the configuration and on local files only and are left out.
\<close>

record http_request =
  req_method :: string
  req_iri :: MGET_IRI
  req_credentials :: "http_challenge option"
  req_range :: "(nat \<times> nat) option"

datatype http_event =
  Sent http_request
| AddUrl string nat

definition URL_FLG_REDIRECTION :: nat where
  "URL_FLG_REDIRECTION = 1"

definition URL_FLG_SITEMAP :: nat where
  "URL_FLG_SITEMAP = 2"

text \<open>
  The network and the IRI library are parameters, indexed by the round of the loop
  where the answer may change: whether \<^verbatim>\<open>http_open\<close> gives a connection, whether
  \<^verbatim>\<open>http_send_request\<close> succeeds, the response read, and the functions
  \<^verbatim>\<open>mget_iri_relative_to_abs\<close> and \<^verbatim>\<open>mget_iri_parse\<close>.
\<close>

record http_env =
  http_open :: "nat \<Rightarrow> MGET_IRI \<Rightarrow> bool"
  http_send_request :: "nat \<Rightarrow> http_request \<Rightarrow> bool"
  http_get_response :: "nat \<Rightarrow> http_request \<Rightarrow> http_response option"
  iri_relative_to_abs :: "MGET_IRI \<Rightarrow> string \<Rightarrow> string"
  iri_parse :: "string \<Rightarrow> MGET_IRI option"

text \<open>
  The connection of the downloader is known by host, scheme and port; the events are
  the requests sent and the calls of \<^verbatim>\<open>add_url\<close>.
\<close>

record http_state =
  conn :: "(string option \<times> string \<times> string) option"
  http_events :: "http_event list"

definition conn_of :: "MGET_IRI \<Rightarrow> string option \<times> string \<times> string" where
  "conn_of iri = (host iri, scheme iri, resolv_port iri)"

text \<open>
  The loop \<^verbatim>\<open>while (iri)\<close> of \<^verbatim>\<open>http_get\<close>. A server that keeps redirecting a part,
  or keeps answering 3xx without \<^verbatim>\<open>Location\<close>, keeps it running: the model counts
  rounds down from a bound and is \<open>None\<close> when the bound is used up. Otherwise the result
  is the response returned (\<^verbatim>\<open>NULL\<close> as \<open>None\<close>) and the state. A \<^verbatim>\<open>NULL\<close>
  \<^verbatim>\<open>challenges\<close> vector is the empty list.
\<close>

fun http_get_loop ::
  "nat \<Rightarrow> http_env \<Rightarrow> (nat \<times> nat) option \<Rightarrow> bool \<Rightarrow> nat \<Rightarrow> MGET_IRI \<Rightarrow> http_challenge list
     \<Rightarrow> http_state \<Rightarrow> (http_response option \<times> http_state) option"
where
  "http_get_loop 0 env part method_get round iri chals s = None"
| "http_get_loop (Suc bound) env part method_get round iri chals s =
     (let conn1 = (if conn s = Some (conn_of iri) then conn s
                   else if http_open env round iri then Some (conn_of iri) else None)
      in if conn1 = None then Some (None, s\<lparr>conn := None\<rparr>)
         else
           (let req = \<lparr>req_method = (if method_get then ''GET'' else ''HEAD''),
                       req_iri = iri,
                       req_credentials = (if chals \<noteq> [] then select_challenge chals None else None),
                       req_range = part\<rparr>;
                s1 = s\<lparr>conn := conn1, http_events := http_events s @ [Sent req]\<rparr>
            in case (if http_send_request env round req then http_get_response env round req
                     else None) of
                 None \<Rightarrow> Some (None, s1\<lparr>conn := None\<rparr>)
               | Some resp \<Rightarrow>
                   (let s2 = (if keep_alive resp then s1 else s1\<lparr>conn := None\<rparr>)
                    in if code resp = 302 \<and> links resp \<noteq> [] \<and> digests resp \<noteq> []
                       then Some (Some resp, s2)
                       else if code resp = 401 \<and> chals = [] then
                         (if challenges resp \<noteq> []
                          then http_get_loop bound env part method_get (Suc round) iri
                                 (challenges resp) s2
                          else Some (Some resp, s2))
                       else if code resp div 100 = 2 \<or> code resp div 100 \<ge> 4 \<or> code resp = 304
                       then Some (Some resp, s2)
                       else
                         (case location resp of
                            None \<Rightarrow> http_get_loop bound env part method_get (Suc round) iri chals s2
                          | Some loc \<Rightarrow>
                              (let target = iri_relative_to_abs env iri loc
                               in if part = None
                                  then Some (Some resp,
                                         s2\<lparr>http_events := http_events s2 @
                                              [AddUrl target URL_FLG_REDIRECTION]\<rparr>)
                                  else
                                    (case iri_parse env target of
                                       None \<Rightarrow> Some (None, s2)
                                     | Some iri1 \<Rightarrow>
                                         http_get_loop bound env part method_get (Suc round)
                                           iri1 chals s2))))))"

definition http_get ::
  "nat \<Rightarrow> http_env \<Rightarrow> MGET_IRI \<Rightarrow> (nat \<times> nat) option \<Rightarrow> bool \<Rightarrow> http_state
     \<Rightarrow> (http_response option \<times> http_state) option"
where
  "http_get bound env iri part method_get s = http_get_loop bound env part method_get 0 iri [] s"

text \<open>The credentials of the requests sent, in order.\<close>

fun credentials_sent :: "http_event list \<Rightarrow> http_challenge option list" where
  "credentials_sent [] = []"
| "credentials_sent (Sent req # es) = req_credentials req # credentials_sent es"
| "credentials_sent (e # es) = credentials_sent es"

text \<open>
  A sample server: the first answer is 401 with a Digest and a Basic challenge, in this
  order; every later answer is 200.
\<close>

definition digest_challenge :: http_challenge where
  "digest_challenge = \<lparr>auth_scheme = ''Digest'', auth_params = [(''realm'', ''r''), (''nonce'', ''n'')]\<rparr>"

definition basic_challenge :: http_challenge where
  "basic_challenge = \<lparr>auth_scheme = ''Basic'', auth_params = [(''realm'', ''r'')]\<rparr>"

definition response_401 :: http_response where
  "response_401 =
     \<lparr>code = 401, header = [], body = None, content_type = None, content_filename = None,
      location = None, last_modified = 0, keep_alive = True,
      challenges = [digest_challenge, basic_challenge], links = [], digests = []\<rparr>"

definition response_200 :: http_response where
  "response_200 =
     \<lparr>code = 200, header = [], body = Some ''ok'', content_type = None, content_filename = None,
      location = None, last_modified = 0, keep_alive = True,
      challenges = [], links = [], digests = []\<rparr>"

definition env_auth :: http_env where
  "env_auth =
     \<lparr>http_open = (\<lambda>round iri. True), http_send_request = (\<lambda>round req. True),
      http_get_response = (\<lambda>round req. if round = 0 then Some response_401 else Some response_200),
      iri_relative_to_abs = (\<lambda>iri loc. loc), iri_parse = (\<lambda>u. None)\<rparr>"

definition iri_secret :: MGET_IRI where
  "iri_secret =
     \<lparr>uri = ''http://h/secret'', scheme = ''http'', host = Some ''h'', resolv_port = ''80'',
      path = Some ''secret'', query = None, dirlen = 0\<rparr>"

definition http_idle :: http_state where
  "http_idle = \<lparr>conn = None, http_events = []\<rparr>"

section \<open>src/mget.c: URLs found in a sitemap\<close>

text \<open>
  \<^verbatim>\<open>isspace\<close> in the C locale, and the two trimming loops that the sitemap readers
  share.
\<close>

definition isspace :: "char \<Rightarrow> bool" where
  "isspace c = (let n = of_char c :: nat in n = 32 \<or> (9 \<le> n \<and> n \<le> 13))"

definition trim_spaces :: "string \<Rightarrow> string" where
  "trim_spaces s = rev (dropWhile isspace (rev (dropWhile isspace s)))"

text \<open>
  The length of the location prefix of a sitemap: up to and including the last slash of
  \<^verbatim>\<open>base->uri\<close>, the whole string when it has no slash, and 0 without a base.
\<close>

definition sitemap_baselen :: "MGET_IRI option \<Rightarrow> nat" where
  "sitemap_baselen base =
     (case base of
        None \<Rightarrow> 0
      | Some b \<Rightarrow>
          if CHR ''/'' \<in> set (uri b)
          then length (uri b) - length (takeWhile (\<lambda>c. c \<noteq> CHR ''/'') (rev (uri b)))
          else length (uri b))"

definition base_uri :: "MGET_IRI option \<Rightarrow> string" where
  "base_uri base = (case base of None \<Rightarrow> [] | Some b \<Rightarrow> uri b)"

text \<open>
  The state that the readers change: the process-wide table \<^verbatim>\<open>known_urls\<close>, and a
  log of the calls of \<^verbatim>\<open>add_url\<close> (URL and flags) and of the two messages for URLs
  that are not followed. \<^verbatim>\<open>mget_hashmap_put_noalloc\<close> answers non-zero for a key that
  the table holds already.
\<close>

datatype sitemap_event =
  AddUrlCall string nat
| NotMatchingLocation string
| AlreadyKnown string

record sitemap_state =
  known_urls :: "string list"
  sitemap_events :: "sitemap_event list"

text \<open>The test that skips a URL in both readers.\<close>

definition not_matching_location :: "MGET_IRI option \<Rightarrow> nat \<Rightarrow> string \<Rightarrow> bool" where
  "not_matching_location base baselen url =
     (baselen \<noteq> 0 \<and> (length url \<le> baselen \<or> strncasecmp url (base_uri base) baselen = 0))"

text \<open>
  \<^verbatim>\<open>sitemap_parse_xml\<close>, after the XML reader has listed the content URLs and the
  sitemap index URLs: the loop over the former and the loop over the latter.
\<close>

fun sitemap_urls_loop ::
  "MGET_IRI option \<Rightarrow> nat \<Rightarrow> string list \<Rightarrow> sitemap_state \<Rightarrow> sitemap_state"
where
  "sitemap_urls_loop base baselen [] s = s"
| "sitemap_urls_loop base baselen (url # urls) s =
     sitemap_urls_loop base baselen urls
       (if not_matching_location base baselen url
        then s\<lparr>sitemap_events := sitemap_events s @ [NotMatchingLocation url]\<rparr>
        else if url \<in> set (known_urls s)
        then s\<lparr>sitemap_events := sitemap_events s @ [AlreadyKnown url]\<rparr>
        else s\<lparr>known_urls := known_urls s @ [url],
               sitemap_events := sitemap_events s @ [AddUrlCall url 0]\<rparr>)"

fun sitemap_index_loop :: "string list \<Rightarrow> sitemap_state \<Rightarrow> sitemap_state" where
  "sitemap_index_loop [] s = s"
| "sitemap_index_loop (url # urls) s =
     sitemap_index_loop urls
       (if url \<in> set (known_urls s)
        then s\<lparr>sitemap_events := sitemap_events s @ [AlreadyKnown url]\<rparr>
        else s\<lparr>known_urls := known_urls s @ [url],
               sitemap_events := sitemap_events s @ [AddUrlCall url URL_FLG_SITEMAP]\<rparr>)"

definition sitemap_parse_xml ::
  "MGET_IRI option \<Rightarrow> string list \<Rightarrow> string list \<Rightarrow> sitemap_state \<Rightarrow> sitemap_state"
where
  "sitemap_parse_xml base urls sitemap_urls s =
     sitemap_index_loop sitemap_urls (sitemap_urls_loop base (sitemap_baselen base) urls s)"

text \<open>
  \<^verbatim>\<open>sitemap_parse_text\<close>: the lines of the data, split at the newline byte (an empty
  buffer has no line; a last line needs no newline), each one trimmed.
\<close>

fun split_newline :: "string \<Rightarrow> string \<Rightarrow> string list" where
  "split_newline [] line = [line]"
| "split_newline (c # cs) line =
     (if c = CHR 0x0A then line # split_newline cs [] else split_newline cs (line @ [c]))"

definition text_lines :: "string \<Rightarrow> string list" where
  "text_lines data = (if data = [] then [] else split_newline data [])"

fun sitemap_text_loop ::
  "MGET_IRI option \<Rightarrow> nat \<Rightarrow> string list \<Rightarrow> sitemap_state \<Rightarrow> sitemap_state"
where
  "sitemap_text_loop base baselen [] s = s"
| "sitemap_text_loop base baselen (line # rest) s =
     sitemap_text_loop base baselen rest
       (let url = trim_spaces line
        in if url = [] then s
           else if not_matching_location base baselen url
           then s\<lparr>sitemap_events := sitemap_events s @ [NotMatchingLocation url]\<rparr>
           else s\<lparr>sitemap_events := sitemap_events s @ [AddUrlCall url 0]\<rparr>)"

definition sitemap_parse_text :: "MGET_IRI option \<Rightarrow> string \<Rightarrow> sitemap_state \<Rightarrow> sitemap_state" where
  "sitemap_parse_text base data s =
     sitemap_text_loop base (sitemap_baselen base) (text_lines data) s"

text \<open>
  The example of the comment in the source: a sitemap at
  \<^verbatim>\<open>http://example.com/catalog/sitemap.xml\<close> that lists one URL below its location and
  one URL elsewhere.
\<close>

definition catalog_sitemap :: MGET_IRI where
  "catalog_sitemap =
     \<lparr>uri = ''http://example.com/catalog/sitemap.xml'', scheme = ''http'',
      host = Some ''example.com'', resolv_port = ''80'', path = Some ''catalog/sitemap.xml'',
      query = None, dirlen = 0\<rparr>"

definition url_inside :: string where
  "url_inside = ''http://example.com/catalog/page.html''"

definition url_outside :: string where
  "url_outside = ''http://example.org/elsewhere/page.html''"

definition sitemap_start :: sitemap_state where
  "sitemap_start = \<lparr>known_urls = [], sitemap_events = []\<rparr>"

definition sitemap_text :: string where
  "sitemap_text = url_inside @ [CHR 0x0A] @ url_outside @ [CHR 0x0A]"

section \<open>src/mget.c: saving a response\<close>

text \<open>
  The options of \<^verbatim>\<open>config\<close> that the code modelled here reads. \<^verbatim>\<open>config.quota\<close> is
  the field \<open>config_quota\<close>, to tell it from the global counter \<^verbatim>\<open>quota\<close>; a
  \<^verbatim>\<open>max_redirect\<close> or \<^verbatim>\<open>config_quota\<close> of 0 means that no limit is set.
\<close>

record config =
  spider :: bool
  config_quota :: int
  save_headers :: bool
  output_document :: "string option"
  delete_after :: bool
  adjust_extension :: bool
  timestamping :: bool
  clobber :: bool
  recursive :: bool
  directories :: bool
  span_hosts :: bool
  robots :: bool
  parent :: bool
  https_only :: bool
  trust_server_names :: bool
  max_redirect :: int

text \<open>
  The file system is a list of names with their contents and modification times,
  standard output a string. What the operating system decides is a parameter: whether
  \<^verbatim>\<open>open\<close> is refused for a reason other than \<^verbatim>\<open>EEXIST\<close>, and what a write of
  \<open>n\<close> bytes to a file (or to \<^verbatim>\<open>-\<close>, standard output) returns. \<open>bytes_written\<close>
  counts the bytes that the writes have stored.
\<close>

record file_env =
  open_refused :: "string \<Rightarrow> bool"
  write_returns :: "string \<Rightarrow> nat \<Rightarrow> int"

record save_state =
  quota :: int
  files :: "(string \<times> string) list"
  mtimes :: "(string \<times> int) list"
  stdout :: string
  save_exit_status :: int
  bytes_written :: nat

datatype open_flag = O_TRUNC | O_APPEND | O_EXCL

datatype open_result = Opened | Exists | Refused

text \<open>
  \<^verbatim>\<open>quota_modify_read\<close>: the old value of the counter is returned and the counter is
  advanced, in \<^verbatim>\<open>long long\<close> arithmetic.
\<close>

definition wrap_long_long :: "int \<Rightarrow> int" where
  "wrap_long_long x = (x + 2 ^ 63) mod 2 ^ 64 - 2 ^ 63"

definition quota_modify_read :: "nat \<Rightarrow> save_state \<Rightarrow> int \<times> save_state" where
  "quota_modify_read nbytes s = (quota s, s\<lparr>quota := wrap_long_long (quota s + int nbytes)\<rparr>)"

text \<open>
  \<^verbatim>\<open>open(name, O_WRONLY | flag | O_CREAT, 0644)\<close> and the writes. A write that
  returns less than asked for stores that many bytes and sets exit status 3.
\<close>

definition open_file :: "file_env \<Rightarrow> string \<Rightarrow> open_flag \<Rightarrow> save_state \<Rightarrow> open_result \<times> save_state" where
  "open_file env name flag s =
     (if open_refused env name then (Refused, s)
      else if flag = O_EXCL \<and> map_of (files s) name \<noteq> None then (Exists, s)
      else if flag = O_TRUNC \<or> map_of (files s) name = None
      then (Opened, s\<lparr>files := AList.update name [] (files s)\<rparr>)
      else (Opened, s))"

definition stored_count :: "int \<Rightarrow> nat \<Rightarrow> nat" where
  "stored_count rc n = (if rc < 0 then 0 else min (nat rc) n)"

definition write_file :: "file_env \<Rightarrow> string \<Rightarrow> string \<Rightarrow> save_state \<Rightarrow> save_state" where
  "write_file env name data s =
     (let rc = write_returns env name (length data);
          n = stored_count rc (length data);
          old = (case map_of (files s) name of None \<Rightarrow> [] | Some c \<Rightarrow> c)
      in s\<lparr>files := AList.update name (old @ take n data) (files s),
            bytes_written := bytes_written s + n,
            save_exit_status := (if rc \<noteq> int (length data)
                                 then set_exit_status (save_exit_status s) 3
                                 else save_exit_status s)\<rparr>)"

definition write_stdout :: "file_env \<Rightarrow> string \<Rightarrow> save_state \<Rightarrow> save_state" where
  "write_stdout env data s =
     (let rc = write_returns env ''-'' (length data);
          n = stored_count rc (length data)
      in s\<lparr>stdout := stdout s @ take n data,
            bytes_written := bytes_written s + n,
            save_exit_status := (if rc \<noteq> int (length data)
                                 then set_exit_status (save_exit_status s) 3
                                 else save_exit_status s)\<rparr>)"

text \<open>\<^verbatim>\<open>%d\<close> for the number of a file name.\<close>

function decimal :: "nat \<Rightarrow> string" where
  "decimal n = (if n < 10 then [char_of (48 + n)] else decimal (n div 10) @ [char_of (48 + n mod 10)])"
  by pat_completeness auto
termination
  by (relation "measure id") auto

declare decimal.simps [simp del]

text \<open>
  The writes of the loop body for an open file: the header when headers are saved, the
  body, and the modification time for a file that was created or truncated.
\<close>

definition write_response ::
  "config \<Rightarrow> file_env \<Rightarrow> http_response \<Rightarrow> string \<Rightarrow> string \<Rightarrow> open_flag \<Rightarrow> save_state \<Rightarrow> save_state"
where
  "write_response cfg env resp data name flag s =
     (let s1 = (if save_headers cfg then write_file env name (header resp) s else s);
          s2 = write_file env name data s1
      in if (flag = O_TRUNC \<or> flag = O_EXCL) \<and> last_modified resp \<noteq> 0
         then s2\<lparr>mtimes := AList.update name (last_modified resp) (mtimes s2)\<rparr>
         else s2)"

text \<open>
  The loop \<^verbatim>\<open>for (fnum = 0; fnum < 999;)\<close>: it writes to the open file and ends, or,
  for \<^verbatim>\<open>multiple\<close> and \<^verbatim>\<open>EEXIST\<close>, opens the next numbered name. Its result is the
  state of the descriptor and \<^verbatim>\<open>fnum\<close> at its end.
\<close>

function save_loop ::
  "config \<Rightarrow> file_env \<Rightarrow> http_response \<Rightarrow> string \<Rightarrow> string \<Rightarrow> open_flag \<Rightarrow> bool \<Rightarrow> nat \<Rightarrow>
     open_result \<Rightarrow> string \<Rightarrow> save_state \<Rightarrow> open_result \<times> nat \<times> save_state"
where
  "save_loop cfg env resp data fname flag multiple fnum fd name s =
     (if fnum < 999 then
        (if fd = Opened then (fd, fnum, write_response cfg env resp data name flag s)
         else if multiple \<and> fd = Exists then
           (let unique = fname @ ''.'' @ decimal (Suc fnum)
            in save_loop cfg env resp data fname flag multiple (Suc fnum)
                 (fst (open_file env unique flag s)) unique (snd (open_file env unique flag s)))
         else (fd, fnum, s))
      else (fd, fnum, s))"
  by pat_completeness auto
termination
  by (relation "measure (\<lambda>(cfg, env, resp, data, fname, flag, multiple, fnum, fd, name, s). 999 - fnum)")
     auto

declare save_loop.simps [simp del]

text \<open>The extension that \<^verbatim>\<open>adjust_extension\<close> appends, and the flag of the open call.\<close>

definition adjusted_name :: "config \<Rightarrow> http_response \<Rightarrow> string \<Rightarrow> string" where
  "adjusted_name cfg resp fname =
     (case (if adjust_extension cfg then content_type resp else None) of
        None \<Rightarrow> fname
      | Some ct \<Rightarrow>
          (let ext = (if strcasecmp ct ''text/html'' = 0 then Some ''.html''
                      else if strcasecmp ct ''text/css'' = 0 then Some ''.css''
                      else None)
           in case ext of
                None \<Rightarrow> fname
              | Some e \<Rightarrow>
                  if length fname \<ge> length e \<and>
                     strcasecmp (drop (length fname - length e) fname) e \<noteq> 0
                  then fname @ e else fname))"

definition open_mode :: "config \<Rightarrow> open_flag \<Rightarrow> open_flag \<Rightarrow> open_flag \<times> bool" where
  "open_mode cfg oflag flag =
     (if timestamping cfg then ((if oflag = O_TRUNC then O_TRUNC else flag), False)
      else if \<not> clobber cfg \<or> (recursive cfg \<and> directories cfg)
      then ((if oflag = O_TRUNC \<and> \<not> (recursive cfg \<and> directories cfg) then O_EXCL else flag),
            False)
      else if flag \<noteq> O_APPEND then (O_EXCL, True)
      else (flag, False))"

text \<open>The number of bytes that \<^verbatim>\<open>_save_file\<close> reserves on the quota counter.\<close>

definition reserved_bytes :: "config \<Rightarrow> string \<Rightarrow> http_response \<Rightarrow> nat" where
  "reserved_bytes cfg data resp =
     (if save_headers cfg then length (header resp) + length data else length data)"

text \<open>
  A file name reaches \<^verbatim>\<open>_save_file\<close> as a pointer, which the function compares with
  the pointer \<^verbatim>\<open>config.output_document\<close>. The callers pass that pointer itself, or
  \<^verbatim>\<open>job->local_filename\<close> or \<^verbatim>\<open>resp->content_filename\<close>, which are other strings
  even where they spell the same name. \<^verbatim>\<open>NULL\<close> is \<open>None\<close>.
\<close>

datatype file_name = Output_document | Other_name string

definition name_of :: "config \<Rightarrow> file_name option \<Rightarrow> string option" where
  "name_of cfg fname =
     (case fname of
        None \<Rightarrow> None
      | Some Output_document \<Rightarrow> output_document cfg
      | Some (Other_name name) \<Rightarrow> Some name)"

text \<open>
  The part of \<^verbatim>\<open>_save_file\<close> after the quota check, for the body \<open>data\<close> of the
  response, the string \<open>fname\<close> and the result \<open>same\<close> of the comparison of pointers
  \<^verbatim>\<open>fname == config.output_document\<close>.
\<close>

definition save_checked ::
  "config \<Rightarrow> file_env \<Rightarrow> http_response \<Rightarrow> string \<Rightarrow> string \<Rightarrow> bool \<Rightarrow> open_flag \<Rightarrow> save_state
     \<Rightarrow> save_state"
where
  "save_checked cfg env resp data fname same oflag s =
     (if same \<and> fname = ''-''
      then write_stdout env data
             (if save_headers cfg then write_stdout env (header resp) s else s)
      else if same \<and> delete_after cfg then s
      else
        (let flag0 = (if same then O_APPEND else oflag);
             name = adjusted_name cfg resp fname;
             flag = fst (open_mode cfg oflag flag0);
             multiple = snd (open_mode cfg oflag flag0);
             fd = fst (open_file env name flag s);
             s1 = snd (open_file env name flag s)
         in case save_loop cfg env resp data name flag multiple 0 fd name s1 of
              (fd1, fnum, s2) \<Rightarrow>
                if fd1 \<noteq> Opened \<and> \<not> (fd1 = Exists \<and> fnum < 999)
                then s2\<lparr>save_exit_status := set_exit_status (save_exit_status s2) 3\<rparr>
                else s2))"

text \<open>
  \<^verbatim>\<open>_save_file\<close>. An empty file name makes the code read the byte before the string,
  and a response without body is dereferenced: both are \<open>None\<close>. The quota counter is
  touched only when a quota is configured.
\<close>

definition save_file_flag ::
  "config \<Rightarrow> file_env \<Rightarrow> http_response \<Rightarrow> file_name option \<Rightarrow> open_flag \<Rightarrow> save_state
     \<Rightarrow> save_state option"
where
  "save_file_flag cfg env resp fname flag s =
     (case name_of cfg fname of
        None \<Rightarrow> Some s
      | Some name \<Rightarrow>
          if spider cfg then Some s
          else if name = [] then None
          else if last name = CHR ''/'' then Some s
          else
            (case body resp of
               None \<Rightarrow>
                 (if config_quota cfg = 0 \<and> fname = Some Output_document \<and> name \<noteq> ''-'' \<and>
                     delete_after cfg
                  then Some s else None)
             | Some data \<Rightarrow>
                 if config_quota cfg \<noteq> 0
                 then
                   (let old_quota = fst (quota_modify_read (reserved_bytes cfg data resp) s);
                        s1 = snd (quota_modify_read (reserved_bytes cfg data resp) s)
                    in if old_quota \<ge> config_quota cfg then Some s1
                       else Some (save_checked cfg env resp data name
                                    (fname = Some Output_document) flag s1))
                 else Some (save_checked cfg env resp data name
                              (fname = Some Output_document) flag s)))"

definition save_file ::
  "config \<Rightarrow> file_env \<Rightarrow> http_response \<Rightarrow> file_name option \<Rightarrow> save_state \<Rightarrow> save_state option"
where
  "save_file cfg env resp fname s = save_file_flag cfg env resp fname O_TRUNC s"

definition append_file ::
  "config \<Rightarrow> file_env \<Rightarrow> http_response \<Rightarrow> file_name option \<Rightarrow> save_state \<Rightarrow> save_state option"
where
  "append_file cfg env resp fname s = save_file_flag cfg env resp fname O_APPEND s"

text \<open>
  A run of the program calls \<^verbatim>\<open>save_file\<close> or \<^verbatim>\<open>append_file\<close> for one response
  after the other: a list of responses with the file name and the flag of the call.
\<close>

fun save_all ::
  "config \<Rightarrow> file_env \<Rightarrow> (http_response \<times> file_name option \<times> open_flag) list \<Rightarrow> save_state
     \<Rightarrow> save_state option"
where
  "save_all cfg env [] s = Some s"
| "save_all cfg env ((resp, fname, flag) # rest) s =
     (case save_file_flag cfg env resp fname flag s of
        None \<Rightarrow> None
      | Some s1 \<Rightarrow> save_all cfg env rest s1)"

text \<open>The bytes that a response reserves, 0 when it has no body.\<close>

definition response_bytes :: "config \<Rightarrow> http_response \<Rightarrow> nat" where
  "response_bytes cfg resp =
     (case body resp of None \<Rightarrow> 0 | Some data \<Rightarrow> reserved_bytes cfg data resp)"

text \<open>
  The sixth scenario of the specification: a quota of 1000 bytes and two bodies of 700
  bytes, on a file system that takes every write.
\<close>

definition config_quota_1000 :: config where
  "config_quota_1000 =
     \<lparr>spider = False, config_quota = 1000, save_headers = False, output_document = None,
      delete_after = False, adjust_extension = False, timestamping = False, clobber = True,
      recursive = False, directories = False, span_hosts = False, robots = False,
      parent = True, https_only = False, trust_server_names = False, max_redirect = 20\<rparr>"

definition env_writable :: file_env where
  "env_writable = \<lparr>open_refused = (\<lambda>name. False), write_returns = (\<lambda>name n. int n)\<rparr>"

definition data_700 :: string where
  "data_700 = replicate 700 CHR ''x''"

definition body_700 :: http_response where
  "body_700 =
     \<lparr>code = 200, header = [], body = Some data_700, content_type = None,
      content_filename = None, location = None, last_modified = 0, keep_alive = True,
      challenges = [], links = [], digests = []\<rparr>"

definition save_start :: save_state where
  "save_start =
     \<lparr>quota = 0, files = [], mtimes = [], stdout = [], save_exit_status = 0, bytes_written = 0\<rparr>"

definition after_two_bodies :: save_state where
  "after_two_bodies =
     \<lparr>quota = 1400,
      files = [(''a'', data_700), (''b'', data_700)],
      mtimes = [], stdout = [], save_exit_status = 0, bytes_written = 1400\<rparr>"

definition after_first_body :: save_state where
  "after_first_body =
     \<lparr>quota = 700, files = [(''a'', data_700)], mtimes = [], stdout = [],
      save_exit_status = 0, bytes_written = 700\<rparr>"

definition after_third_body :: save_state where
  "after_third_body =
     \<lparr>quota = 2100, files = [(''a'', data_700), (''b'', data_700)],
      mtimes = [], stdout = [], save_exit_status = 0, bytes_written = 1400\<rparr>"

definition three_bodies :: "(http_response \<times> file_name option \<times> open_flag) list" where
  "three_bodies =
     [(body_700, Some (Other_name ''a''), O_TRUNC), (body_700, Some (Other_name ''b''), O_TRUNC),
      (body_700, Some (Other_name ''c''), O_TRUNC)]"

definition two_bodies :: "(http_response \<times> file_name option \<times> open_flag) list" where
  "two_bodies = [(body_700, Some (Other_name ''a''), O_TRUNC), (body_700, Some (Other_name ''b''), O_TRUNC)]"

section \<open>src/mget.c: admitting URLs to the queue\<close>

subsection \<open>Jobs, hosts and the blacklist\<close>

text \<open>
  The fields of \<^verbatim>\<open>JOB\<close> and \<^verbatim>\<open>HOST\<close> that \<^verbatim>\<open>add_url_to_queue\<close> and
  \<^verbatim>\<open>add_url\<close> touch. Jobs live in the queue and are pointed to by the workers and by
  the hosts: the model names a job by its index in the queue, which only grows here. A
  host is known by scheme, host name and port. The levels of a job are of type
  \<^verbatim>\<open>int\<close>: \<^verbatim>\<open>job->level + 1\<close> and \<^verbatim>\<open>job->redirection_level + 1\<close> are computed
  in 32-bit arithmetic, which the model writes out as wrap-around beyond \<^verbatim>\<open>INT_MAX\<close>.
\<close>

definition INT_MAX :: int where
  "INT_MAX = 2147483647"

definition INT_MIN :: int where
  "INT_MIN = - 2147483648"

definition wrap_int :: "int \<Rightarrow> int" where
  "wrap_int x = (x + 2 ^ 31) mod 2 ^ 32 - 2 ^ 31"

type_synonym host_id = "string \<times> string option \<times> string"

record JOB =
  job_iri :: "MGET_IRI option"
  level :: int
  redirection_level :: int
  referer :: "MGET_IRI option"
  local_filename :: "string option"
  sitemap :: bool
  deferred :: "MGET_IRI list option"
  job_host :: "host_id option"

record HOST =
  host_key :: host_id
  robot_job :: "nat option"
  host_robots :: "string list option"

type_synonym iri_key = "string \<times> string option \<times> string \<times> string option \<times> string option"

record admission_state =
  queue :: "JOB list"
  hosts :: "HOST list"
  blacklist :: "iri_key list"
  domains :: "string list"
  parents :: "MGET_IRI list"

text \<open>
  Outside of mget.c: the IRI parser of the library (\<^verbatim>\<open>mget_iri_parse\<close>,
  \<^verbatim>\<open>mget_iri_parse_base\<close>) and the set \<^verbatim>\<open>config.exclude_domains\<close> are parameters,
  and so is \<^verbatim>\<open>get_local_filename\<close>, whose result is only stored in the job.
\<close>

record admission_env =
  parse_iri :: "string \<Rightarrow> MGET_IRI option"
  parse_iri_base :: "MGET_IRI option \<Rightarrow> string \<Rightarrow> MGET_IRI option"
  get_local_filename :: "MGET_IRI \<Rightarrow> string option"
  exclude_domains :: "string list"

text \<open>
  Modelled from the spec: the canonical form that keys the blacklist, job.c, host.c and
  blacklist.c being no part of the sources at hand. The canonical form of a URL is its
  scheme, host, port, path and query, without the fragment (sections 4.1 and 4.2).
\<close>

definition iri_key_of :: "MGET_IRI \<Rightarrow> iri_key" where
  "iri_key_of u = (scheme u, host u, resolv_port u, path u, query u)"

text \<open>
  Modelled from the spec: \<^verbatim>\<open>blacklist_add\<close> of blacklist.c, "add(url) returning true
  on first insertion" (section 4.2); in the code it returns the IRI then, and
  \<^verbatim>\<open>NULL\<close> for a URL that the blacklist holds already.
\<close>

definition blacklist_add :: "MGET_IRI \<Rightarrow> admission_state \<Rightarrow> MGET_IRI option \<times> admission_state" where
  "blacklist_add u s =
     (if iri_key_of u \<in> set (blacklist s) then (None, s)
      else (Some u, s\<lparr>blacklist := blacklist s @ [iri_key_of u]\<rparr>))"

text \<open>
  Modelled from the spec: \<^verbatim>\<open>queue_add\<close> of job.c. A new Job is bound to its URL and
  put at the end of the queue, "globally ordered by admission order" (section 4.5); its
  level is that of a seed, 0, until \<^verbatim>\<open>add_url\<close> sets it (section 4.10, step 8), and
  so is its redirection level. For \<^verbatim>\<open>NULL\<close> there is no job.
\<close>

definition new_job :: "MGET_IRI \<Rightarrow> JOB" where
  "new_job u =
     \<lparr>job_iri = Some u, level = 0, redirection_level = 0, referer = None,
      local_filename = None, sitemap = False, deferred = None, job_host = None\<rparr>"

text \<open>
  Modelled from the spec: \<^verbatim>\<open>queue_add\<close> of job.c itself, which puts the new Job at the
  end of the queue and returns it (section 4.5).
\<close>

definition queue_add :: "MGET_IRI option \<Rightarrow> admission_state \<Rightarrow> nat option \<times> admission_state" where
  "queue_add u s =
     (case u of
        None \<Rightarrow> (None, s)
      | Some v \<Rightarrow> (Some (length (queue s)), s\<lparr>queue := queue s @ [new_job v]\<rparr>))"

text \<open>
  Modelled from the spec: the key of a host entry of host.c, "add(url) inserts by
  (scheme, host, port)" (section 4.4). \<^verbatim>\<open>hosts_add\<close> answers with the new entry, here
  its index, only when it has created one.
\<close>

definition host_id_of :: "MGET_IRI \<Rightarrow> host_id" where
  "host_id_of u = (scheme u, host u, resolv_port u)"

text \<open>
  Modelled from the spec: the lookup of a host entry by its key in the registry of
  host.c (section 4.4), counting the entries from \<open>i\<close>.
\<close>

fun hosts_find :: "host_id \<Rightarrow> HOST list \<Rightarrow> nat \<Rightarrow> nat option" where
  "hosts_find k [] i = None"
| "hosts_find k (h # hs) i = (if host_key h = k then Some i else hosts_find k hs (Suc i))"

text \<open>
  Modelled from the spec: \<^verbatim>\<open>hosts_get\<close> of host.c, the entry of the host of a URL
  (section 4.4).
\<close>

definition hosts_get :: "MGET_IRI \<Rightarrow> admission_state \<Rightarrow> nat option" where
  "hosts_get u s = hosts_find (host_id_of u) (hosts s) 0"

text \<open>
  Modelled from the spec: \<^verbatim>\<open>hosts_add\<close> of host.c, which inserts an entry for a host
  that has none and reports whether it did (section 4.4).
\<close>

definition hosts_add :: "MGET_IRI \<Rightarrow> admission_state \<Rightarrow> nat option \<times> admission_state" where
  "hosts_add u s =
     (if hosts_get u s \<noteq> None then (None, s)
      else (Some (length (hosts s)),
            s\<lparr>hosts := hosts s @
                 [\<lparr>host_key = host_id_of u, robot_job = None, host_robots = None\<rparr>]\<rparr>))"

text \<open>
  Modelled from the spec: \<^verbatim>\<open>mget_iri_parse_base(iri, "/robots.txt", encoding)\<close>, the
  URL of the robots file of the host of \<open>u\<close> ("resolve(base, raw)", section 4.1).
\<close>

definition robots_txt_iri :: "MGET_IRI \<Rightarrow> MGET_IRI" where
  "robots_txt_iri u =
     u\<lparr>uri := scheme u @ ''://'' @ (case host u of None \<Rightarrow> [] | Some h \<Rightarrow> h) @ '':'' @
              resolv_port u @ ''/robots.txt'',
       path := Some ''robots.txt'', query := None, dirlen := 0\<rparr>"

subsection \<open>The checks of \<^verbatim>\<open>add_url\<close>\<close>

text \<open>
  The flags are bits of a number. How a call ended is returned with the new state, to
  name the paths of a function that returns nothing: with a new job for the URL, with a
  new robots job that holds the URL back, with the URL held back on a robots job in
  flight, rejected for a reason, dropped as known to the blacklist, or undefined
  (\<^verbatim>\<open>strcmp\<close> or \<^verbatim>\<open>strncmp\<close> on a \<^verbatim>\<open>NULL\<close> string, a job outside the queue).
\<close>

definition flag_set :: "nat \<Rightarrow> nat \<Rightarrow> bool" where
  "flag_set flags f = odd (flags div f)"

datatype outcome =
  Enqueued nat
| Robots_enqueued nat
| Deferred nat
| Rejected string
| Known
| Undefined

text \<open>The loop over \<^verbatim>\<open>parents\<close>: is the URL below one of the parent directories?\<close>

fun parent_loop :: "MGET_IRI list \<Rightarrow> MGET_IRI \<Rightarrow> bool option" where
  "parent_loop [] u = Some False"
| "parent_loop (p # ps) u =
     (case (host p, host u) of
        (Some hp, Some hu) \<Rightarrow>
          if hp = hu then
            (if dirlen p = 0 then Some True
             else case (path p, path u) of
                    (Some pp, Some pu) \<Rightarrow>
                      if take (dirlen p) pp = take (dirlen p) pu then Some True
                      else parent_loop ps u
                  | _ \<Rightarrow> None)
          else parent_loop ps u
      | _ \<Rightarrow> None)"

text \<open>The host check for a recursive download that does not span hosts.\<close>

definition host_reason :: "admission_env \<Rightarrow> MGET_IRI \<Rightarrow> admission_state \<Rightarrow> string option" where
  "host_reason env u s =
     (case host u of
        None \<Rightarrow> Some ''missing ip/host/domain''
      | Some h \<Rightarrow>
          if h \<notin> set (domains s) then Some ''no host-spanning requested''
          else if h \<in> set (exclude_domains env) then Some ''domain explicitely excluded''
          else None)"

text \<open>Setting a field of the job at an index of the queue.\<close>

definition update_job :: "nat \<Rightarrow> (JOB \<Rightarrow> JOB) \<Rightarrow> admission_state \<Rightarrow> admission_state" where
  "update_job j f s = s\<lparr>queue := (queue s)[j := f (queue s ! j)]\<rparr>"

definition defer_on :: "nat \<Rightarrow> MGET_IRI \<Rightarrow> admission_state \<Rightarrow> admission_state" where
  "defer_on j u s =
     update_job j
       (\<lambda>job. job\<lparr>deferred := Some ((case deferred job of None \<Rightarrow> [] | Some d \<Rightarrow> d) @ [u])\<rparr>) s"

text \<open>
  A new host: its robots job is put on the queue, tied to the host, and holds the URL
  back.
\<close>

definition add_robots_job :: "nat \<Rightarrow> MGET_IRI \<Rightarrow> admission_state \<Rightarrow> nat \<times> admission_state" where
  "add_robots_job h u s =
     (let j = length (queue s);
          s1 = snd (queue_add (Some (robots_txt_iri u)) s);
          s2 = update_job j (\<lambda>job. job\<lparr>job_host := Some (host_id_of u), deferred := Some [u]\<rparr>) s1
      in (j, s2\<lparr>hosts := (hosts s2)[h := (hosts s2 ! h)\<lparr>robot_job := Some j\<rparr>]\<rparr>))"

text \<open>
  The robots step of \<^verbatim>\<open>add_url\<close>: it ends the call (\<open>Inl\<close>), or goes on with the
  robots job as \<^verbatim>\<open>new_job\<close> or with none (\<open>Inr\<close>).
\<close>

definition robots_step ::
  "config \<Rightarrow> MGET_IRI \<Rightarrow> admission_state \<Rightarrow> (outcome \<times> admission_state) + (nat option \<times> admission_state)"
where
  "robots_step cfg u s =
     (if recursive cfg \<and> robots cfg then
        (case hosts_add u s of
           (Some h, s1) \<Rightarrow>
             Inr (Some (fst (add_robots_job h u s1)), snd (add_robots_job h u s1))
         | (None, s1) \<Rightarrow>
             (case hosts_get u s of
                None \<Rightarrow> Inr (None, s)
              | Some h \<Rightarrow>
                  (case robot_job (hosts s ! h) of
                     Some rj \<Rightarrow> Inl (Deferred rj, defer_on rj u s)
                   | None \<Rightarrow>
                       (case (host_robots (hosts s ! h), path u) of
                          (Some paths, Some pu) \<Rightarrow>
                            if \<exists>p\<in>set paths. take (length p) pu = p
                            then Inl (Rejected ''disallowed by robots.txt'', s)
                            else Inr (None, s)
                        | _ \<Rightarrow> Inr (None, s)))))
      else Inr (None, s))"

text \<open>
  The last step of \<^verbatim>\<open>add_url\<close>: without a robots job the URL goes through the
  blacklist to the queue; the new job then gets its file name, its levels and its
  referer from the job \<open>parent\<close> that led to it, if there is one.
\<close>

definition fill_job ::
  "config \<Rightarrow> admission_env \<Rightarrow> JOB option \<Rightarrow> nat \<Rightarrow> JOB \<Rightarrow> JOB"
where
  "fill_job cfg env pjob flags nj =
     (let nj1 = (if output_document cfg = None
                 then (if \<not> flag_set flags URL_FLG_REDIRECTION \<or> trust_server_names cfg \<or> pjob = None
                       then nj\<lparr>local_filename :=
                                 (case job_iri nj of None \<Rightarrow> None
                                  | Some v \<Rightarrow> get_local_filename env v)\<rparr>
                       else nj\<lparr>local_filename := local_filename (the pjob)\<rparr>)
                 else nj);
          nj2 = (case pjob of
                   None \<Rightarrow> nj1
                 | Some job \<Rightarrow>
                     if flag_set flags URL_FLG_REDIRECTION
                     then nj1\<lparr>redirection_level := wrap_int (redirection_level job + 1),
                              referer := referer job\<rparr>
                     else nj1\<lparr>level := wrap_int (level job + 1), referer := job_iri job\<rparr>)
      in if flag_set flags URL_FLG_SITEMAP then nj2\<lparr>sitemap := True\<rparr> else nj2)"

text \<open>\<^verbatim>\<open>new_job || (new_job = queue_add(blacklist_add(iri)))\<close>\<close>

definition admit :: "MGET_IRI \<Rightarrow> nat option \<Rightarrow> admission_state \<Rightarrow> nat option \<times> admission_state" where
  "admit u robots_job s =
     (if robots_job \<noteq> None then (robots_job, s)
      else queue_add (fst (blacklist_add u s)) (snd (blacklist_add u s)))"

definition finish_job ::
  "config \<Rightarrow> admission_env \<Rightarrow> nat option \<Rightarrow> nat \<Rightarrow> nat \<Rightarrow> admission_state \<Rightarrow> admission_state"
where
  "finish_job cfg env job flags n s =
     (let pjob = (case job of None \<Rightarrow> None | Some j \<Rightarrow> Some (queue s ! j));
          s1 = update_job n (fill_job cfg env pjob flags) s
      in case job of
           None \<Rightarrow> s1
         | Some j \<Rightarrow>
             if flag_set flags URL_FLG_REDIRECTION then s1
             else update_job j (\<lambda>pj. pj\<lparr>job_iri := None\<rparr>) s1)"

definition enqueue_step ::
  "config \<Rightarrow> admission_env \<Rightarrow> nat option \<Rightarrow> nat \<Rightarrow> MGET_IRI \<Rightarrow> nat option \<Rightarrow> admission_state
     \<Rightarrow> outcome \<times> admission_state"
where
  "enqueue_step cfg env job flags u robots_job s =
     (case fst (admit u robots_job s) of
        None \<Rightarrow> (Known, snd (admit u robots_job s))
      | Some n \<Rightarrow>
          (if robots_job \<noteq> None then Robots_enqueued n else Enqueued n,
           finish_job cfg env job flags n (snd (admit u robots_job s))))"

text \<open>
  The checks of \<^verbatim>\<open>add_url\<close> that come before the robots step: they end the call
  (\<open>Inl\<close>) and leave everything as it is, or hand the parsed URL on (\<open>Inr\<close>).
\<close>

definition url_checks ::
  "config \<Rightarrow> admission_env \<Rightarrow> nat option \<Rightarrow> string \<Rightarrow> nat \<Rightarrow> admission_state \<Rightarrow> outcome + MGET_IRI"
where
  "url_checks cfg env job url flags s =
     (if (case job of None \<Rightarrow> False | Some j \<Rightarrow> \<not> j < length (queue s)) then Inl Undefined
      else if flag_set flags URL_FLG_REDIRECTION \<and> max_redirect cfg \<noteq> 0 \<and> job \<noteq> None \<and>
              redirection_level (queue s ! the job) \<ge> max_redirect cfg
      then Inl (Rejected ''redirection level'')
      else
        (case parse_iri env url of
           None \<Rightarrow> Inl (Rejected ''cannot resolve URI'')
         | Some u \<Rightarrow>
             if https_only cfg \<and> scheme u \<noteq> ''https''
             then Inl (Rejected ''https-only requested'')
             else
               (case (if recursive cfg \<and> \<not> parent cfg then parent_loop (parents s) u
                      else Some True) of
                  None \<Rightarrow> Inl Undefined
                | Some False \<Rightarrow> Inl (Rejected ''parent ascending not allowed'')
                | Some True \<Rightarrow>
                    (case (if recursive cfg \<and> \<not> span_hosts cfg then host_reason env u s
                           else None) of
                       Some reason \<Rightarrow> Inl (Rejected reason)
                     | None \<Rightarrow> Inr u))))"

definition add_url ::
  "config \<Rightarrow> admission_env \<Rightarrow> nat option \<Rightarrow> string \<Rightarrow> nat \<Rightarrow> admission_state
     \<Rightarrow> outcome \<times> admission_state"
where
  "add_url cfg env job url flags s =
     (case url_checks cfg env job url flags s of
        Inl out \<Rightarrow> (out, s)
      | Inr u \<Rightarrow>
          (case robots_step cfg u s of
             Inl ended \<Rightarrow> ended
           | Inr (robots_job, s1) \<Rightarrow> enqueue_step cfg env job flags u robots_job s1))"

subsection \<open>Seeds\<close>

text \<open>The length of the directory part of a path, up to its last slash.\<close>

definition dirlen_of :: "string option \<Rightarrow> nat" where
  "dirlen_of p =
     (case p of
        None \<Rightarrow> 0
      | Some q \<Rightarrow>
          if CHR ''/'' \<in> set q
          then length q - length (takeWhile (\<lambda>c. c \<noteq> CHR ''/'') (rev q))
          else 0)"

text \<open>
  \<^verbatim>\<open>add_url_to_queue\<close>, for the URLs of the command line and of the input file. The
  result is the job returned, \<^verbatim>\<open>NULL\<close> as \<open>None\<close>. The IRI is one object that the
  job, the robots job and \<^verbatim>\<open>parents\<close> share, so its \<^verbatim>\<open>dirlen\<close> is set before it is
  handed on; a URL without host name adds nothing to \<^verbatim>\<open>config.domains\<close>.
\<close>

definition seed_robots ::
  "config \<Rightarrow> MGET_IRI \<Rightarrow> admission_state \<Rightarrow> nat option \<times> admission_state"
where
  "seed_robots cfg u s =
     (if recursive cfg \<and> robots cfg then
        (case hosts_add u s of
           (Some h, s1) \<Rightarrow> (Some (fst (add_robots_job h u s1)), snd (add_robots_job h u s1))
         | (None, s1) \<Rightarrow>
             (case hosts_get u s of
                None \<Rightarrow> (None, s)
              | Some h \<Rightarrow>
                  (case robot_job (hosts s ! h) of
                     None \<Rightarrow> (None, s)
                   | Some rj \<Rightarrow> (Some rj, defer_on rj u s))))
      else (None, s))"

definition add_url_to_queue ::
  "config \<Rightarrow> admission_env \<Rightarrow> string \<Rightarrow> MGET_IRI option \<Rightarrow> admission_state
     \<Rightarrow> nat option \<times> admission_state"
where
  "add_url_to_queue cfg env url base s =
     (case parse_iri_base env base url of
        None \<Rightarrow> (None, s)
      | Some u0 \<Rightarrow>
          (case blacklist_add u0 s of
             (None, s0) \<Rightarrow> (None, s)
           | (Some v, s1) \<Rightarrow>
               (let u = (if recursive cfg \<and> \<not> parent cfg
                         then u0\<lparr>dirlen := dirlen_of (path u0)\<rparr> else u0);
                    s2 = (if recursive cfg \<and> \<not> span_hosts cfg \<and>
                             (case host u of None \<Rightarrow> False
                              | Some h \<Rightarrow> h \<notin> set (exclude_domains env))
                          then s1\<lparr>domains := domains s1 @ [the (host u)]\<rparr> else s1);
                    job = fst (seed_robots cfg u s2);
                    s3 = snd (seed_robots cfg u s2);
                    s4 = (if recursive cfg \<and> \<not> parent cfg
                          then s3\<lparr>parents := parents s3 @ [u]\<rparr> else s3);
                    added = (if job = None then queue_add (Some u) s4 else (job, s4));
                    j = the (fst added);
                    s5 = snd added
                in (Some j,
                    update_job j
                      (\<lambda>jb. jb\<lparr>local_filename :=
                                 (if deferred jb = None then get_local_filename env u
                                  else (case job_iri jb of None \<Rightarrow> None
                                        | Some v \<Rightarrow> get_local_filename env v))\<rparr>) s5))))"

text \<open>The robots job as \<^verbatim>\<open>add_url\<close> and \<^verbatim>\<open>add_url_to_queue\<close> set it up.\<close>

definition robots_job_for :: "MGET_IRI \<Rightarrow> JOB" where
  "robots_job_for u =
     (new_job (robots_txt_iri u))\<lparr>job_host := Some (host_id_of u), deferred := Some [u]\<rparr>"

subsection \<open>Runs of admission attempts\<close>



fun job_keys :: "JOB list \<Rightarrow> iri_key list" where
  "job_keys [] = []"
| "job_keys (jb # q) =
     (case job_iri jb of None \<Rightarrow> job_keys q | Some u \<Rightarrow> iri_key_of u # job_keys q)"

definition enqueued_by :: "admission_state \<Rightarrow> admission_state \<Rightarrow> iri_key list" where
  "enqueued_by s s1 = job_keys (drop (length (queue s)) (queue s1))"


text \<open>
  The host of a canonical URL, the canonical form of the URL of the robots file of a
  host, and whether the robots job of a host is in flight: the entry of the host still
  points to it.
\<close>

definition key_host :: "iri_key \<Rightarrow> host_id" where
  "key_host k = (fst k, fst (snd k), fst (snd (snd k)))"

definition robots_key :: "host_id \<Rightarrow> iri_key" where
  "robots_key k = (fst k, fst (snd k), snd (snd k), Some ''robots.txt'', None)"



text \<open>
  Sample runs on one host: a parser that reads a URL as a path on the host \<^verbatim>\<open>h\<close>, a
  page at recursion level 2 that was reached through one redirection, and the options
  with and without robots handling.
\<close>

definition sample_iri :: "string \<Rightarrow> MGET_IRI" where
  "sample_iri url =
     \<lparr>uri = ''http://h/'' @ url, scheme = ''http'', host = Some ''h'', resolv_port = ''80'',
      path = Some url, query = None, dirlen = 0\<rparr>"

definition env_admit :: admission_env where
  "env_admit =
     \<lparr>parse_iri = (\<lambda>url. Some (sample_iri url)),
      parse_iri_base = (\<lambda>base url. Some (sample_iri url)),
      get_local_filename = (\<lambda>u. path u), exclude_domains = []\<rparr>"

definition config_plain :: config where
  "config_plain =
     \<lparr>spider = False, config_quota = 0, save_headers = False, output_document = None,
      delete_after = False, adjust_extension = False, timestamping = False, clobber = True,
      recursive = False, directories = False, span_hosts = False, robots = False,
      parent = True, https_only = False, trust_server_names = False, max_redirect = 20\<rparr>"


definition deep_page :: admission_state where
  "deep_page =
     \<lparr>queue = [(new_job (sample_iri ''a''))\<lparr>level := 2, redirection_level := 1\<rparr>],
      hosts = [], blacklist = [iri_key_of (sample_iri ''a'')], domains = [], parents = []\<rparr>"

definition no_jobs :: admission_state where
  "no_jobs = \<lparr>queue = [], hosts = [], blacklist = [], domains = [], parents = []\<rparr>"








section \<open>Properties of the resolver\<close>
































section \<open>Properties of the part download\<close>

lemma mirrors_tried_append: "mirrors_tried (xs @ ys) = mirrors_tried xs @ mirrors_tried ys"
  by (induction xs rule: mirrors_tried.induct) simp_all

lemma store_part_length: "length (parts (store_part env ix tries msg s)) = length (parts s)"
  by (simp add: store_part_def Let_def split: option.splits)

lemma store_part_tried: "mirrors_tried (events (store_part env ix tries msg s)) = mirrors_tried (events s)"
  by (simp add: store_part_def Let_def mirrors_tried_append split: option.splits)

lemma attempt_parts_length: "length (parts (download_part_attempt env ix tries mi s)) = length (parts s)"
  by (simp add: download_part_attempt_def Let_def store_part_length split: option.splits)

lemma attempt_mirrors_tried: "mirrors_tried (events (download_part_attempt env ix tries mi s)) = mirrors_tried (events s) @ [mi]"
  by (simp add: download_part_attempt_def Let_def store_part_tried mirrors_tried_append split: option.splits)

lemma part_loop_stop: "\<not> (tries < m \<and> \<not> part_done (parts s ! ix)) \<Longrightarrow> download_part_loop env m ix tries mi s = s"
  by (subst download_part_loop.simps) (rule if_not_P)

lemma part_loop_step: "tries < m \<Longrightarrow> \<not> part_done (parts s ! ix) \<Longrightarrow> download_part_loop env m ix tries mi s =
   download_part_loop env m ix (Suc tries) ((mi + 1) mod m) (download_part_attempt env ix tries mi s)"
  by (subst download_part_loop.simps) simp

lemma part_loop_length: "length (parts (download_part_loop env m ix tries mi s)) = length (parts s)"
proof (induction env m ix tries mi s rule: download_part_loop.induct)
  case (1 env m ix tries mi s)
  show ?case
  proof (cases "tries < m \<and> \<not> part_done (parts s ! ix)")
    case True
    then show ?thesis
      using 1 [OF True] by (simp add: part_loop_step attempt_parts_length)
  next
    case False
    then show ?thesis by (simp add: part_loop_stop)
  qed
qed

lemma map_upt_shift: "map f [0..<Suc n] = f 0 # map (\<lambda>k. f (Suc k)) [0..<n]"
proof -
  have "[0..<Suc n] = 0 # map Suc [0..<n]"
    by (simp only: map_Suc_upt upt_conv_Cons [of 0 "Suc n"])
  then show ?thesis by (simp only: list.map map_map o_def)
qed

lemma part_loop_mirrors_tried:
  "0 < m \<Longrightarrow> mi < m \<Longrightarrow> tries \<le> m \<Longrightarrow>
   \<exists>n. tries + n \<le> m \<and>
       mirrors_tried (events (download_part_loop env m ix tries mi s)) =
         mirrors_tried (events s) @ map (\<lambda>k. (mi + k) mod m) [0..<n] \<and>
       (\<not> part_done (parts (download_part_loop env m ix tries mi s) ! ix) \<longrightarrow> tries + n = m)"
proof (induction env m ix tries mi s rule: download_part_loop.induct)
  case (1 env m ix tries mi s)
  show ?case
  proof (cases "tries < m \<and> \<not> part_done (parts s ! ix)")
    case True
    let ?s2 = "download_part_attempt env ix tries mi s"
    let ?r = "download_part_loop env m ix (Suc tries) ((mi + 1) mod m) ?s2"
    have next_round: "download_part_loop env m ix tries mi s = ?r"
      using True by (simp add: part_loop_step)
    from True 1(2) have "(mi + 1) mod m < m" "Suc tries \<le> m" by simp_all
    from 1(1) [OF True 1(2) this]
    obtain n where n: "Suc tries + n \<le> m"
      "mirrors_tried (events ?r) =
         mirrors_tried (events ?s2) @ map (\<lambda>k. ((mi + 1) mod m + k) mod m) [0..<n]"
      "\<not> part_done (parts ?r ! ix) \<longrightarrow> Suc tries + n = m"
      by blast
    have "map (\<lambda>k. (mi + k) mod m) [0..<Suc n] = mi # map (\<lambda>k. ((mi + 1) mod m + k) mod m) [0..<n]"
      using 1(3) by (simp add: map_upt_shift mod_add_left_eq del: upt_Suc)
    with n show ?thesis
      unfolding next_round by (intro exI [of _ "Suc n"]) (simp add: attempt_mirrors_tried del: upt_Suc)
  next
    case False
    then have "download_part_loop env m ix tries mi s = s"
      by (simp add: part_loop_stop)
    with False 1(4) show ?thesis
      by (intro exI [of _ 0]) auto
  qed
qed


lemma attempt_events_shape:
  assumes "ix < length (parts s)" "\<not> part_done (parts s ! ix)"
  shows "\<exists>w. events (download_part_attempt env ix tries mi s) = events s @ TryMirror mi # w \<and>
           (\<forall>e\<in>set w. \<not> is_try e \<and> is_io e) \<and>
           (part_done (parts (download_part_attempt env ix tries mi s) ! ix) \<longleftrightarrow> (\<exists>e\<in>set w. stored e))"
  using assms
  by (auto simp: download_part_attempt_def store_part_def Let_def split: option.splits)

lemma dropWhile_not_stored:
  "\<forall>e\<in>set xs. \<not> stored e \<Longrightarrow> dropWhile (\<lambda>e. \<not> stored e) (xs @ ys) = dropWhile (\<lambda>e. \<not> stored e) ys"
  by (induction xs) simp_all

lemma part_loop_stored:
  "ix < length (parts s) \<Longrightarrow> \<not> part_done (parts s ! ix) \<Longrightarrow> \<forall>e\<in>set (events s). \<not> stored e \<Longrightarrow>
   (part_done (parts (download_part_loop env m ix tries mi s) ! ix) \<longleftrightarrow>
      (\<exists>e\<in>set (events (download_part_loop env m ix tries mi s)). stored e)) \<and>
   (\<forall>e\<in>set (dropWhile (\<lambda>e. \<not> stored e) (events (download_part_loop env m ix tries mi s))). \<not> is_try e)"
proof (induction env m ix tries mi s rule: download_part_loop.induct)
  case (1 env m ix tries mi s)
  show ?case
  proof (cases "tries < m \<and> \<not> part_done (parts s ! ix)")
    case True
    let ?s2 = "download_part_attempt env ix tries mi s"
    let ?r = "download_part_loop env m ix (Suc tries) ((mi + 1) mod m) ?s2"
    have next_round: "download_part_loop env m ix tries mi s = ?r"
      using True by (simp add: part_loop_step)
    from attempt_events_shape [OF 1(2) 1(3), of env tries mi]
    obtain w where w: "events ?s2 = events s @ TryMirror mi # w"
      "\<forall>e\<in>set w. \<not> is_try e \<and> is_io e" "part_done (parts ?s2 ! ix) \<longleftrightarrow> (\<exists>e\<in>set w. stored e)"
      by blast
    have len: "ix < length (parts ?s2)" using 1(2) by (simp add: attempt_parts_length)
    show ?thesis
    proof (cases "part_done (parts ?s2 ! ix)")
      case True
      then have r: "?r = ?s2" by (simp add: part_loop_stop)
      have "dropWhile (\<lambda>e. \<not> stored e) (events ?s2) = dropWhile (\<lambda>e. \<not> stored e) w"
        using 1(4) w(1) by (simp add: dropWhile_not_stored)
      then have "\<forall>e\<in>set (dropWhile (\<lambda>e. \<not> stored e) (events ?s2)). \<not> is_try e"
        using w(2) set_dropWhileD by fastforce
      with True w show ?thesis unfolding next_round r by auto
    next
      case False
      with w 1(4) have "\<forall>e\<in>set (events ?s2). \<not> stored e" by auto
      from 1(1) [OF \<open>tries < m \<and> \<not> part_done (parts s ! ix)\<close> len False this]
      show ?thesis unfolding next_round .
    qed
  next
    case False
    then have "download_part_loop env m ix tries mi s = s"
      by (simp add: part_loop_stop)
    with 1(3) 1(4) show ?thesis by (simp add: dropWhile_eq_Nil_conv [THEN iffD2])
  qed
qed

lemma attempt_events_io: "\<forall>e\<in>set (events s). is_io e \<Longrightarrow> \<forall>e\<in>set (events (download_part_attempt env ix tries mi s)). is_io e"
  by (auto simp: download_part_attempt_def store_part_def Let_def split: option.splits)

lemma part_loop_io:
  "\<forall>e\<in>set (events s). is_io e \<Longrightarrow> \<forall>e\<in>set (events (download_part_loop env m ix tries mi s)). is_io e"
proof (induction env m ix tries mi s rule: download_part_loop.induct)
  case (1 env m ix tries mi s)
  show ?case
  proof (cases "tries < m \<and> \<not> part_done (parts s ! ix)")
    case True
    from 1(1) [OF True attempt_events_io [OF 1(2)]] True show ?thesis by (simp add: part_loop_step)
  next
    case False
    with 1(2) show ?thesis by (simp add: part_loop_stop)
  qed
qed

lemma all_done_loop_eq: "all_done_loop ps \<longleftrightarrow> (\<forall>p\<in>set ps. part_done p)"
  by (induction ps) simp_all

lemma rotation_inj:
  fixes w m a b :: nat
  assumes "a < m" "b < m" "a \<le> b" "(w + a) mod m = (w + b) mod m"
  shows "a = b"
proof -
  have "w + a \<le> w + b" using assms(3) by simp
  from mod_eq_dvd_iff_nat [OF this, of m] assms(4) have "m dvd (w + b) - (w + a)"
    by simp
  then have "m dvd b - a" by simp
  moreover have "b - a < m" using assms by simp
  ultimately have "b - a = 0" by (meson dvd_imp_le not_less zero_less_iff_neq_zero)
  with assms(3) show ?thesis by simp
qed

lemma rotation_distinct: "distinct (map (\<lambda>k. (w + k) mod m) [0..<m])"
proof -
  have "inj_on (\<lambda>k. (w + k) mod m) {0..<m}"
  proof (rule inj_onI)
    fix a b assume "a \<in> {0..<m}" "b \<in> {0..<m}" "(w + a) mod m = (w + b) mod m"
    then show "a = b"
      using rotation_inj [of a m b w] rotation_inj [of b m a w] by (cases "a \<le> b") auto
  qed
  then show ?thesis by (simp add: distinct_map)
qed

lemma rotation_set: "0 < m \<Longrightarrow> set (map (\<lambda>k. (w + k) mod m) [0..<m]) = {0..<m}"
proof -
  assume m: "0 < m"
  have "card (set (map (\<lambda>k. (w + k) mod m) [0..<m])) = m"
    using rotation_distinct [of w m] distinct_card by fastforce
  moreover have "set (map (\<lambda>k. (w + k) mod m) [0..<m]) \<subseteq> {0..<m}" using m by auto
  ultimately show ?thesis by (simp add: card_subset_eq)
qed

lemma mirrors_tried_not_io: "\<forall>e\<in>set es. \<not> is_io e \<Longrightarrow> mirrors_tried es = []"
  by (induction es rule: mirrors_tried.induct) simp_all

lemma not_io_not_try: "\<not> is_io e \<Longrightarrow> \<not> is_try e \<and> \<not> stored e"
  by (cases e) simp_all

lemma download_part_result:
  assumes "download_part env w m ix s = Some s'"
  obtains extra where
    "0 < m" "ix < length (parts s)"
    "events s' = events (download_part_loop env m ix 0 (w mod m) s) @ extra"
    "\<forall>e\<in>set extra. \<not> is_io e"
    "part_done (parts s' ! ix) = part_done (parts (download_part_loop env m ix 0 (w mod m) s) ! ix)"
    "\<not> part_done (parts s' ! ix) \<longrightarrow> \<not> inuse (parts s' ! ix)"
proof -
  let ?s1 = "download_part_loop env m ix 0 (w mod m) s"
  from assms have m: "0 < m" and ix: "ix < length (parts s)"
    by (auto simp: download_part_def split: if_splits)
  then have ix1: "ix < length (parts ?s1)" by (simp add: part_loop_length)
  from assms m ix ix1 have
    "\<exists>extra. events s' = events ?s1 @ extra \<and> (\<forall>e\<in>set extra. \<not> is_io e) \<and>
       part_done (parts s' ! ix) = part_done (parts ?s1 ! ix) \<and>
       (\<not> part_done (parts s' ! ix) \<longrightarrow> \<not> inuse (parts s' ! ix))"
    by (auto simp: download_part_def Let_def split: if_splits)
  with m ix that show thesis by blast
qed

lemma set_dropWhile_append:
  "set (dropWhile P (xs @ ys)) \<subseteq> set (dropWhile P xs) \<union> set ys"
  by (induction xs) (auto dest: set_dropWhileD)

text \<open>
  C7. A run of \<^verbatim>\<open>download_part\<close> by worker \<open>w\<close> over \<open>m\<close> mirrors tries the
  mirrors \<open>w mod m\<close>, \<open>(w + 1) mod m\<close>, ... in this order, \<open>n \<le> m\<close> of them, none
  if the part is done at entry. No mirror is tried after the write that stored the
  part, and the part is done at the end just if it was done before or such a write took
  place. A part that is not done at the end has seen all \<open>m\<close> mirrors, each one once,
  and has its \<^verbatim>\<open>inuse\<close> flag reset.
\<close>

theorem C7_mirror_round_robin:
  assumes "download_part env w m ix (s\<lparr>events := []\<rparr>) = Some s'"
  shows "(\<exists>n\<le>m. mirrors_tried (events s') = map (\<lambda>k. (w + k) mod m) [0..<n] \<and>
            (part_done (parts s ! ix) \<longrightarrow> n = 0) \<and>
            (\<not> part_done (parts s' ! ix) \<longrightarrow> n = m \<and> \<not> inuse (parts s' ! ix)) \<and>
            (n = m \<longrightarrow> distinct (mirrors_tried (events s')) \<and>
                       set (mirrors_tried (events s')) = {0..<m})) \<and>
         (\<forall>e\<in>set (dropWhile (\<lambda>e. \<not> stored e) (events s')). \<not> is_try e) \<and>
         (part_done (parts s' ! ix) \<longleftrightarrow>
            part_done (parts s ! ix) \<or> (\<exists>e\<in>set (events s'). stored e))"
proof -
  let ?s0 = "s\<lparr>events := []\<rparr>"
  let ?s1 = "download_part_loop env m ix 0 (w mod m) ?s0"
  from download_part_result [OF assms] obtain extra where
    m: "0 < m" and ix: "ix < length (parts ?s0)" and
    ev: "events s' = events ?s1 @ extra" and
    extra: "\<forall>e\<in>set extra. \<not> is_io e" and
    dn: "part_done (parts s' ! ix) = part_done (parts ?s1 ! ix)" and
    iu: "\<not> part_done (parts s' ! ix) \<longrightarrow> \<not> inuse (parts s' ! ix)"
    by blast
  have tried: "mirrors_tried (events s') = mirrors_tried (events ?s1)"
    using ev extra by (simp add: mirrors_tried_append mirrors_tried_not_io)
  from extra have extra': "\<forall>e\<in>set extra. \<not> is_try e \<and> \<not> stored e"
    using not_io_not_try by blast
  show ?thesis
  proof (cases "part_done (parts s ! ix)")
    case True
    then have s1: "?s1 = ?s0" by (simp add: part_loop_stop)
    have "mirrors_tried (events s') = map (\<lambda>k. (w + k) mod m) [0..<0]"
      using tried s1 by simp
    moreover have "\<forall>e\<in>set (dropWhile (\<lambda>e. \<not> stored e) (events s')). \<not> is_try e"
      using ev s1 extra' by (auto dest: set_dropWhileD)
    moreover have "part_done (parts s' ! ix)" using dn s1 True by simp
    ultimately show ?thesis using True m by auto
  next
    case False
    have "w mod m < m" using m by simp
    from part_loop_mirrors_tried [OF m this, of 0 env ix ?s0]
    obtain n where n: "n \<le> m"
      "mirrors_tried (events ?s1) = map (\<lambda>k. (w mod m + k) mod m) [0..<n]"
      "\<not> part_done (parts ?s1 ! ix) \<longrightarrow> n = m"
      by auto
    have rot: "(\<lambda>k. (w mod m + k) mod m) = (\<lambda>k. (w + k) mod m)"
      by (simp add: mod_add_left_eq)
    from part_loop_stored [OF ix, of env m 0 "w mod m"] False
    have st: "part_done (parts ?s1 ! ix) \<longleftrightarrow> (\<exists>e\<in>set (events ?s1). stored e)"
      "\<forall>e\<in>set (dropWhile (\<lambda>e. \<not> stored e) (events ?s1)). \<not> is_try e"
      by simp_all
    have a: "mirrors_tried (events s') = map (\<lambda>k. (w + k) mod m) [0..<n]"
      using tried n(2) rot by simp
    have b: "n = m \<longrightarrow> distinct (mirrors_tried (events s')) \<and>
               set (mirrors_tried (events s')) = {0..<m}"
      using a rotation_distinct [of w m] rotation_set [OF m, of w] by simp
    have c: "\<forall>e\<in>set (dropWhile (\<lambda>e. \<not> stored e) (events s')). \<not> is_try e"
      using st(2) extra' set_dropWhile_append [of "\<lambda>e. \<not> stored e" "events ?s1" extra]
      unfolding ev by blast
    have d: "part_done (parts s' ! ix) \<longleftrightarrow> (\<exists>e\<in>set (events s'). stored e)"
      using dn st(1) ev extra' by auto
    from n(1) a n(3) iu dn b False have
      "\<exists>n\<le>m. mirrors_tried (events s') = map (\<lambda>k. (w + k) mod m) [0..<n] \<and>
            (part_done (parts s ! ix) \<longrightarrow> n = 0) \<and>
            (\<not> part_done (parts s' ! ix) \<longrightarrow> n = m \<and> \<not> inuse (parts s' ! ix)) \<and>
            (n = m \<longrightarrow> distinct (mirrors_tried (events s')) \<and>
                       set (mirrors_tried (events s')) = {0..<m})"
      by (intro exI [of _ n]) simp
    with c d False show ?thesis by simp
  qed
qed

lemma run_mirror2:
  "download_part env_mirror2 4 3 1 (sample_parts\<lparr>events := []\<rparr>) = Some after_mirror2"
  by (simp add: download_part_def download_part_loop.simps download_part_attempt_def
      store_part_def env_mirror2_def sample_parts_def part_response_def stored_parts_def
      after_mirror2_def Let_def)

lemma run_no_mirror:
  "download_part env_no_mirror 4 3 1 (sample_parts\<lparr>events := []\<rparr>) = Some after_no_mirror"
  by (simp add: download_part_def download_part_loop.simps download_part_attempt_def
      store_part_def env_no_mirror_def sample_parts_def after_no_mirror_def Let_def)

lemma run_bad_checksum:
  "download_part env_bad_checksum 4 3 1 (sample_parts\<lparr>events := []\<rparr>) = Some after_bad_checksum"
  by (simp add: download_part_def download_part_loop.simps download_part_attempt_def
      store_part_def env_bad_checksum_def sample_parts_def part_response_def stored_parts_def
      after_bad_checksum_def Let_def)

text \<open>The theorem at the run that finds the part on the second mirror tried, and at the
  run where no mirror answers.\<close>

theorem C7_mirror_round_robin_witness:
  "download_part env_mirror2 4 3 1 (sample_parts\<lparr>events := []\<rparr>) = Some after_mirror2 \<and>
   mirrors_tried (events after_mirror2) = [1, 2] \<and>
   part_done (parts after_mirror2 ! 1) \<and>
   download_part env_no_mirror 4 3 1 (sample_parts\<lparr>events := []\<rparr>) = Some after_no_mirror \<and>
   mirrors_tried (events after_no_mirror) = [1, 2, 0] \<and>
   \<not> inuse (parts after_no_mirror ! 1)"
proof -
  have "part_done (parts after_mirror2 ! 1) \<longleftrightarrow>
          part_done (parts sample_parts ! 1) \<or> (\<exists>e\<in>set (events after_mirror2). stored e)"
    using C7_mirror_round_robin [OF run_mirror2] by blast
  then have "part_done (parts after_mirror2 ! 1)"
    by (simp add: after_mirror2_def)
  moreover have "\<not> part_done (parts after_no_mirror ! 1)"
    by (simp add: after_no_mirror_def)
  with C7_mirror_round_robin [OF run_no_mirror] have "\<not> inuse (parts after_no_mirror ! 1)"
    by blast
  ultimately show ?thesis
    using run_mirror2 run_no_mirror by (simp add: after_mirror2_def after_no_mirror_def)
qed

lemma download_part_removal:
  assumes "download_part env w m ix (s\<lparr>events := []\<rparr>) = Some s'"
  shows "(QueueDel \<in> set (events s') \<longleftrightarrow>
            (\<forall>p\<in>set (parts s'). part_done p) \<and> job_validate_file env (parts s')) \<and>
         (QueueDel \<in> set (events s') \<longrightarrow>
            (\<exists>pre. events s' = pre @ [LockDownloader, PartsChecked True, UnlockDownloader,
                                       ValidateFile True, QueueDel, SignalMain]))"
proof -
  let ?s0 = "s\<lparr>events := []\<rparr>"
  let ?s1 = "download_part_loop env m ix 0 (w mod m) ?s0"
  from assms have m: "0 < m" and ix: "ix < length (parts s)"
    by (auto simp: download_part_def split: if_splits)
  then have ix1: "ix < length (parts ?s1)" by (simp add: part_loop_length)
  have io: "\<forall>e\<in>set (events ?s1). is_io e"
    by (rule part_loop_io) simp
  then have nq: "QueueDel \<notin> set (events ?s1)" by auto
  show ?thesis
  proof (cases "part_done (parts ?s1 ! ix)")
    case True
    with assms m ix nq show ?thesis
      by (auto simp: download_part_def Let_def all_done_loop_eq split: if_splits)
  next
    case False
    with assms m ix have s': "s' = ?s1\<lparr>parts := (parts ?s1)[ix := (parts ?s1 ! ix)\<lparr>inuse := False\<rparr>]\<rparr>"
      by (simp add: download_part_def Let_def)
    have "\<not> part_done (parts s' ! ix)" using False ix1 by (simp add: s')
    moreover have "ix < length (parts s')" using ix1 by (simp add: s')
    then have "parts s' ! ix \<in> set (parts s')" by (rule nth_mem)
    ultimately have "\<not> (\<forall>p\<in>set (parts s'). part_done p)" by blast
    moreover have "QueueDel \<notin> set (events s')" using nq by (simp add: s')
    ultimately show ?thesis by simp
  qed
qed

lemma metalink_loaded_events:
  "events (metalink_loaded env metalink (s\<lparr>events := []\<rparr>)) =
     (if metalink_size metalink \<le> 0 \<or> metalink_mirrors metalink = None
      then [QueueDel, SignalMain]
      else if job_validate_file env (parts s) then [ValidateFile True, QueueDel, SignalMain]
      else [ValidateFile False, SortMirrors, SignalWorker, QueueDelNull, SignalMain])"
  by (simp add: metalink_loaded_def ready_def)

lemma chunks_loaded_events:
  "events (chunks_loaded env (s\<lparr>events := []\<rparr>)) =
     (if job_validate_file env (parts s) then [ValidateFile True, QueueDel, SignalMain]
      else [ValidateFile False, SignalWorker, QueueDelNull, SignalMain])"
  by (simp add: chunks_loaded_def ready_def)

text \<open>
  C3, as the code has it. \<^verbatim>\<open>download_part\<close> removes the job from the queue just if
  every part of \<^verbatim>\<open>job->parts\<close> is done and \<^verbatim>\<open>job_validate_file\<close> accepts the file;
  the removal then comes last, after the parts were checked between locking and
  unlocking the downloader mutex with the result that all are done, and after the
  validation succeeded; if the validation fails there is no removal.
  \<^verbatim>\<open>downloader_thread\<close> removes a job whose manifest it has just read, with no test of
  the parts under the lock: without validation when the manifest gives no positive size
  or no mirrors, and after a validation that succeeds at once; when the validation fails
  the job stays on the queue. The same holds for the manifest built for
  \<^verbatim>\<open>config.chunk_size\<close>.
\<close>

theorem C3_removed_only_when_complete:
  "(download_part env w m ix (s\<lparr>events := []\<rparr>) = Some s' \<longrightarrow>
      (QueueDel \<in> set (events s') \<longleftrightarrow>
         (\<forall>p\<in>set (parts s'). part_done p) \<and> job_validate_file env (parts s')) \<and>
      (QueueDel \<in> set (events s') \<longrightarrow>
         (\<exists>pre. events s' = pre @ [LockDownloader, PartsChecked True, UnlockDownloader,
                                    ValidateFile True, QueueDel, SignalMain]))) \<and>
   (QueueDel \<in> set (events (metalink_loaded env metalink (s\<lparr>events := []\<rparr>))) \<longleftrightarrow>
      metalink_size metalink \<le> 0 \<or> metalink_mirrors metalink = None \<or>
      job_validate_file env (parts s)) \<and>
   (ValidateFile True \<in> set (events (metalink_loaded env metalink (s\<lparr>events := []\<rparr>))) \<longleftrightarrow>
      0 < metalink_size metalink \<and> metalink_mirrors metalink \<noteq> None \<and>
      job_validate_file env (parts s)) \<and>
   (ValidateFile False \<in> set (events (metalink_loaded env metalink (s\<lparr>events := []\<rparr>))) \<longleftrightarrow>
      0 < metalink_size metalink \<and> metalink_mirrors metalink \<noteq> None \<and>
      \<not> job_validate_file env (parts s)) \<and>
   LockDownloader \<notin> set (events (metalink_loaded env metalink (s\<lparr>events := []\<rparr>))) \<and>
   PartsChecked True \<notin> set (events (metalink_loaded env metalink (s\<lparr>events := []\<rparr>))) \<and>
   (QueueDel \<in> set (events (chunks_loaded env (s\<lparr>events := []\<rparr>))) \<longleftrightarrow>
      job_validate_file env (parts s)) \<and>
   (ValidateFile True \<in> set (events (chunks_loaded env (s\<lparr>events := []\<rparr>))) \<longleftrightarrow>
      job_validate_file env (parts s)) \<and>
   LockDownloader \<notin> set (events (chunks_loaded env (s\<lparr>events := []\<rparr>))) \<and>
   PartsChecked True \<notin> set (events (chunks_loaded env (s\<lparr>events := []\<rparr>)))"
proof -
  have part: "download_part env w m ix (s\<lparr>events := []\<rparr>) = Some s' \<longrightarrow>
      (QueueDel \<in> set (events s') \<longleftrightarrow>
         (\<forall>p\<in>set (parts s'). part_done p) \<and> job_validate_file env (parts s')) \<and>
      (QueueDel \<in> set (events s') \<longrightarrow>
         (\<exists>pre. events s' = pre @ [LockDownloader, PartsChecked True, UnlockDownloader,
                                    ValidateFile True, QueueDel, SignalMain]))"
    using download_part_removal [of env w m ix s s'] by blast
  have loaded:
    "QueueDel \<in> set (events (metalink_loaded env metalink (s\<lparr>events := []\<rparr>))) \<longleftrightarrow>
       metalink_size metalink \<le> 0 \<or> metalink_mirrors metalink = None \<or>
       job_validate_file env (parts s)"
    "ValidateFile True \<in> set (events (metalink_loaded env metalink (s\<lparr>events := []\<rparr>))) \<longleftrightarrow>
       0 < metalink_size metalink \<and> metalink_mirrors metalink \<noteq> None \<and>
       job_validate_file env (parts s)"
    "ValidateFile False \<in> set (events (metalink_loaded env metalink (s\<lparr>events := []\<rparr>))) \<longleftrightarrow>
       0 < metalink_size metalink \<and> metalink_mirrors metalink \<noteq> None \<and>
       \<not> job_validate_file env (parts s)"
    "LockDownloader \<notin> set (events (metalink_loaded env metalink (s\<lparr>events := []\<rparr>)))"
    "PartsChecked True \<notin> set (events (metalink_loaded env metalink (s\<lparr>events := []\<rparr>)))"
    by (auto simp: metalink_loaded_events)
  have chunks:
    "QueueDel \<in> set (events (chunks_loaded env (s\<lparr>events := []\<rparr>))) \<longleftrightarrow>
       job_validate_file env (parts s)"
    "ValidateFile True \<in> set (events (chunks_loaded env (s\<lparr>events := []\<rparr>))) \<longleftrightarrow>
       job_validate_file env (parts s)"
    "LockDownloader \<notin> set (events (chunks_loaded env (s\<lparr>events := []\<rparr>)))"
    "PartsChecked True \<notin> set (events (chunks_loaded env (s\<lparr>events := []\<rparr>)))"
    by (auto simp: chunks_loaded_events)
  from part loaded chunks show ?thesis by (intro conjI)
qed

lemma fresh_job_events: "fresh_job\<lparr>events := []\<rparr> = fresh_job"
  by (simp add: fresh_job_def)

text \<open>
  The theorem at the run that completes the file, at the run whose file fails its
  checksum, and at a manifest that has just been read for a file that fails the
  validation: the job stays on the queue.
\<close>

theorem C3_removed_only_when_complete_witness:
  "download_part env_mirror2 4 3 1 (sample_parts\<lparr>events := []\<rparr>) = Some after_mirror2 \<and>
   QueueDel \<in> set (events after_mirror2) \<and>
   job_validate_file env_mirror2 (parts after_mirror2) \<and>
   download_part env_bad_checksum 4 3 1 (sample_parts\<lparr>events := []\<rparr>) = Some after_bad_checksum \<and>
   QueueDel \<notin> set (events after_bad_checksum) \<and>
   QueueDel \<notin> set (events (metalink_loaded env_bad_checksum sample_manifest fresh_job))"
proof -
  have v: "job_validate_file env_mirror2 (parts after_mirror2)"
    by (simp add: env_mirror2_def)
  moreover have "\<forall>p\<in>set (parts after_mirror2). part_done p"
    by (simp add: after_mirror2_def stored_parts_def)
  ultimately have a: "QueueDel \<in> set (events after_mirror2)"
    using C3_removed_only_when_complete [of env_mirror2 4 3 1 sample_parts after_mirror2]
      run_mirror2 by blast
  have "\<not> job_validate_file env_bad_checksum (parts after_bad_checksum)"
    by (simp add: env_bad_checksum_def)
  then have b: "QueueDel \<notin> set (events after_bad_checksum)"
    using C3_removed_only_when_complete [of env_bad_checksum 4 3 1 sample_parts after_bad_checksum]
      run_bad_checksum by blast
  have "\<not> (metalink_size sample_manifest \<le> 0 \<or> metalink_mirrors sample_manifest = None \<or>
      job_validate_file env_bad_checksum (parts fresh_job))"
    by (simp add: sample_manifest_def env_bad_checksum_def)
  then have "QueueDel \<notin> set (events (metalink_loaded env_bad_checksum sample_manifest
      (fresh_job\<lparr>events := []\<rparr>)))"
    using C3_removed_only_when_complete [of env_bad_checksum 0 0 0 fresh_job fresh_job sample_manifest]
    by blast
  then have c: "QueueDel \<notin> set (events (metalink_loaded env_bad_checksum sample_manifest fresh_job))"
    unfolding fresh_job_events .
  from run_mirror2 a v run_bad_checksum b c show ?thesis by (intro conjI)
qed

text \<open>
  C3 as stated fails for a manifest that gives the length 0: \<^verbatim>\<open>downloader_thread\<close>
  removes the job from the queue at once, although \<^verbatim>\<open>job_validate_file\<close> was not
  called, and would not have accepted the file, and no test of the parts was made under
  the lock.
\<close>

theorem C3_empty_manifest_counterexample:
  "events (metalink_loaded env_bad_checksum empty_manifest fresh_job) = [QueueDel, SignalMain] \<and>
   QueueDel \<in> set (events (metalink_loaded env_bad_checksum empty_manifest fresh_job)) \<and>
   ValidateFile True \<notin> set (events (metalink_loaded env_bad_checksum empty_manifest fresh_job)) \<and>
   PartsChecked True \<notin> set (events (metalink_loaded env_bad_checksum empty_manifest fresh_job)) \<and>
   \<not> job_validate_file env_bad_checksum (parts fresh_job)"
  by (simp add: metalink_loaded_def ready_def empty_manifest_def fresh_job_def
      env_bad_checksum_def)
section \<open>Properties of the HTTP transaction\<close>

lemma strcasecmp_Cons_eq_0:
  "strcasecmp (a # as) (b # bs) = 0 \<longleftrightarrow> tolower a = tolower b \<and> strcasecmp as bs = 0"
proof -
  have "int (of_char (tolower a)) - int (of_char (tolower b)) = 0 \<longleftrightarrow> tolower a = tolower b"
    by (simp only: right_minus_eq of_nat_eq_iff of_char_eq_iff)
  then show ?thesis by simp
qed

lemma tolower_d_b: "tolower CHR ''d'' \<noteq> tolower CHR ''b''"
  by (simp add: tolower_def)

lemma digest_not_basic: "strcasecmp a ''digest'' = 0 \<Longrightarrow> strcasecmp a ''basic'' \<noteq> 0"
proof (cases a)
  case Nil
  then show ?thesis by (simp add: tolower_def)
next
  case (Cons x xs)
  assume "strcasecmp a ''digest'' = 0"
  with Cons have "tolower x = tolower CHR ''d''"
    by (simp only: strcasecmp_Cons_eq_0)
  with tolower_d_b have "tolower x \<noteq> tolower CHR ''b''" by simp
  with Cons show ?thesis by (simp only: strcasecmp_Cons_eq_0) simp
qed

text \<open>
  What the selection loop computes: the first challenge whose scheme is not Digest, and
  a Digest challenge (the first one) only when there is no other.
\<close>

lemma select_challenge_first_other:
  "select_challenge cs sel =
     (case find (\<lambda>c. strcasecmp (auth_scheme c) ''digest'' \<noteq> 0) cs of
        Some c \<Rightarrow> Some c
      | None \<Rightarrow> (if sel = None then (case cs of [] \<Rightarrow> None | c # rest \<Rightarrow> Some c) else sel))"
proof (induction cs arbitrary: sel)
  case Nil
  then show ?case by simp
next
  case (Cons c cs)
  show ?case
  proof (cases "strcasecmp (auth_scheme c) ''digest'' = 0")
    case True
    then have basic: "strcasecmp (auth_scheme c) ''basic'' \<noteq> 0" by (rule digest_not_basic)
    let ?sel = "if sel = None then Some c else sel"
    have "?sel \<noteq> None" by simp
    then have "select_challenge cs ?sel =
        (case find (\<lambda>c. strcasecmp (auth_scheme c) ''digest'' \<noteq> 0) cs of
           Some c \<Rightarrow> Some c | None \<Rightarrow> ?sel)"
      unfolding Cons [of ?sel] by (simp only: if_False)
    moreover have "select_challenge (c # cs) sel = select_challenge cs ?sel"
      using True basic by simp
    moreover have "find (\<lambda>c. strcasecmp (auth_scheme c) ''digest'' \<noteq> 0) (c # cs) =
        find (\<lambda>c. strcasecmp (auth_scheme c) ''digest'' \<noteq> 0) cs"
      using True by simp
    ultimately show ?thesis by (simp only: list.case)
  next
    case False
    then show ?thesis by simp
  qed
qed

text \<open>
  C6 at a 401 response that offers Digest and Basic: the request is sent again once,
  and the credentials of the second request answer the Basic challenge, against the
  comment "Prefer 'Digest' over 'Basic'" above the loop.
\<close>

theorem C6_basic_chosen_over_digest:
  "select_challenge [digest_challenge, basic_challenge] None = Some basic_challenge \<and>
   select_challenge [basic_challenge, digest_challenge] None = Some basic_challenge \<and>
   http_get 10 env_auth iri_secret None True http_idle =
     Some (Some response_200,
       \<lparr>conn = Some (Some ''h'', ''http'', ''80''),
        http_events =
          [Sent \<lparr>req_method = ''GET'', req_iri = iri_secret, req_credentials = None,
                 req_range = None\<rparr>,
           Sent \<lparr>req_method = ''GET'', req_iri = iri_secret,
                 req_credentials = Some basic_challenge, req_range = None\<rparr>]\<rparr>)"
proof -
  have "select_challenge [digest_challenge, basic_challenge] None = Some basic_challenge"
    by (simp add: digest_challenge_def basic_challenge_def tolower_def)
  moreover have "select_challenge [basic_challenge, digest_challenge] None = Some basic_challenge"
    by (simp add: digest_challenge_def basic_challenge_def tolower_def)
  moreover have "http_get 10 env_auth iri_secret None True http_idle =
     Some (Some response_200,
       \<lparr>conn = Some (Some ''h'', ''http'', ''80''),
        http_events =
          [Sent \<lparr>req_method = ''GET'', req_iri = iri_secret, req_credentials = None,
                 req_range = None\<rparr>,
           Sent \<lparr>req_method = ''GET'', req_iri = iri_secret,
                 req_credentials = Some basic_challenge, req_range = None\<rparr>]\<rparr>)"
    unfolding http_get_def
    apply (simp add: eval_nat_numeral)
    apply (simp add: env_auth_def Let_def http_idle_def conn_of_def iri_secret_def
        response_401_def response_200_def)
    apply (simp add: digest_challenge_def basic_challenge_def tolower_def)
    done
  ultimately show ?thesis by (simp only: simp_thms)
qed

section \<open>Properties of the sitemap readers\<close>

lemma strcasecmp_refl: "strcasecmp a a = 0"
  by (induction a) simp_all

lemma catalog_baselen: "sitemap_baselen (Some catalog_sitemap) = 27"
  by (simp add: sitemap_baselen_def catalog_sitemap_def)

text \<open>
  In both readers a URL that is longer than the location prefix and begins with it is
  skipped as "not matching sitemap location".
\<close>

lemma location_prefix_not_followed:
  assumes "baselen \<noteq> 0" "take baselen url = take baselen (base_uri base)"
  shows "not_matching_location base baselen url"
  using assms by (simp add: not_matching_location_def strncasecmp_def strcasecmp_refl)

text \<open>
  C4 at the example of the source's own comment ("A Sitemap file located at
  http://example.com/catalog/sitemap.xml can include any URLs starting with
  http://example.com/catalog/ but not any other"): both readers skip the URL below the
  location of the sitemap and call \<^verbatim>\<open>add_url\<close> for the URL outside of it.
\<close>

theorem C4_location_test_inverted:
  "sitemap_events (sitemap_parse_xml (Some catalog_sitemap) [url_inside, url_outside] []
      sitemap_start) =
     [NotMatchingLocation url_inside, AddUrlCall url_outside 0] \<and>
   sitemap_events (sitemap_parse_text (Some catalog_sitemap) sitemap_text sitemap_start) =
     [NotMatchingLocation url_inside, AddUrlCall url_outside 0]"
proof -
  have inside: "not_matching_location (Some catalog_sitemap) 27 url_inside"
    by (rule location_prefix_not_followed)
       (simp_all add: base_uri_def catalog_sitemap_def url_inside_def)
  have outside: "\<not> not_matching_location (Some catalog_sitemap) 27 url_outside"
    by (simp add: not_matching_location_def strncasecmp_def base_uri_def catalog_sitemap_def
        url_outside_def tolower_def)
  have lines: "text_lines sitemap_text = [url_inside, url_outside, []]"
    by (simp add: text_lines_def sitemap_text_def url_inside_def url_outside_def)
  have trim: "trim_spaces url_inside = url_inside" "trim_spaces url_outside = url_outside"
    "trim_spaces [] = []"
    by (simp_all add: trim_spaces_def url_inside_def url_outside_def isspace_def)
  have nonempty: "url_inside \<noteq> []" "url_outside \<noteq> []" "url_outside \<noteq> url_inside"
    by (simp_all add: url_inside_def url_outside_def)
  show ?thesis
    using inside outside nonempty
    by (simp add: sitemap_parse_xml_def sitemap_parse_text_def catalog_baselen lines trim
        sitemap_start_def Let_def)
qed

section \<open>Properties of saving a response\<close>

text \<open>
  C10. In spider mode, without a file name, and for a file name that ends with a slash,
  \<^verbatim>\<open>_save_file\<close> returns the state as it got it: no file, no output and no byte of
  quota, since the reservation comes after these checks.
\<close>

theorem C10_no_write_no_quota:
  "spider cfg \<or> name_of cfg fname = None \<or>
   (\<exists>name. name_of cfg fname = Some name \<and> name \<noteq> [] \<and> last name = CHR ''/'') \<Longrightarrow>
   save_file_flag cfg env resp fname flag s = Some s"
  by (auto simp: save_file_flag_def split: option.splits)


text \<open>The theorem at a directory name, with a quota configured.\<close>

theorem C10_no_write_no_quota_witness:
  "save_file_flag config_quota_1000 env_writable body_700 (Some (Other_name ''dir/'')) O_TRUNC
     save_start = Some save_start"
  using C10_no_write_no_quota [of config_quota_1000 "Some (Other_name ''dir/'')" env_writable
      body_700 O_TRUNC save_start]
  by (simp add: name_of_def)

lemma stored_count_le: "stored_count rc n \<le> n"
  by (simp add: stored_count_def)

lemma write_file_frame:
  "quota (write_file env name data s) = quota s \<and>
   bytes_written (write_file env name data s) \<le> bytes_written s + length data"
  by (simp add: write_file_def Let_def stored_count_le)

lemma write_stdout_frame:
  "quota (write_stdout env data s) = quota s \<and>
   bytes_written (write_stdout env data s) \<le> bytes_written s + length data"
  by (simp add: write_stdout_def Let_def stored_count_le)

lemma open_file_frame:
  "quota (snd (open_file env name flag s)) = quota s \<and>
   bytes_written (snd (open_file env name flag s)) = bytes_written s"
  by (simp add: open_file_def)

lemma write_response_frame:
  "quota (write_response cfg env resp data name flag s) = quota s \<and>
   bytes_written (write_response cfg env resp data name flag s) \<le>
     bytes_written s + reserved_bytes cfg data resp"
proof -
  have a: "bytes_written (write_file env name data (write_file env name (header resp) s)) \<le>
      bytes_written s + (length (header resp) + length data)"
    using write_file_frame [of env name data "write_file env name (header resp) s"]
      write_file_frame [of env name "header resp" s] by linarith
  show ?thesis
    using a write_file_frame [of env name data s]
    by (simp add: write_response_def Let_def reserved_bytes_def write_file_frame)
qed

lemma save_loop_frame:
  "quota (snd (snd (save_loop cfg env resp data fname flag multiple fnum fd name s))) = quota s \<and>
   bytes_written (snd (snd (save_loop cfg env resp data fname flag multiple fnum fd name s))) \<le>
     bytes_written s + reserved_bytes cfg data resp"
proof (induction cfg env resp data fname flag multiple fnum fd name s rule: save_loop.induct)
  case (1 cfg env resp data fname flag multiple fnum fd name s)
  show ?case
  proof (cases "fnum < 999 \<and> fd \<noteq> Opened \<and> multiple \<and> fd = Exists")
    case True
    then show ?thesis
      using 1 [OF _ _ _ refl] open_file_frame [of env "fname @ ''.'' @ decimal (Suc fnum)" flag s]
      by (subst (1 2) save_loop.simps) (simp add: Let_def)
  next
    case False
    then show ?thesis
      using write_response_frame [of cfg env resp data name flag s]
      by (subst (1 2) save_loop.simps) auto
  qed
qed

lemma save_checked_frame:
  "quota (save_checked cfg env resp data fname same oflag s) = quota s \<and>
   bytes_written (save_checked cfg env resp data fname same oflag s) \<le>
     bytes_written s + reserved_bytes cfg data resp"
proof (cases "same \<and> fname = ''-''")
  case True
  have "bytes_written (write_stdout env data (write_stdout env (header resp) s)) \<le>
      bytes_written s + (length (header resp) + length data)"
    using write_stdout_frame [of env data "write_stdout env (header resp) s"]
      write_stdout_frame [of env "header resp" s] by linarith
  with True show ?thesis
    using write_stdout_frame [of env data s]
    by (simp add: save_checked_def reserved_bytes_def write_stdout_frame)
next
  case False
  show ?thesis
  proof (cases "same \<and> delete_after cfg")
    case True
    with False show ?thesis by (simp add: save_checked_def)
  next
    case nodel: False
    define flag0 where "flag0 = (if same then O_APPEND else oflag)"
    define name where "name = adjusted_name cfg resp fname"
    define flag where "flag = fst (open_mode cfg oflag flag0)"
    define multiple where "multiple = snd (open_mode cfg oflag flag0)"
    define s1 where "s1 = snd (open_file env name flag s)"
    define r where "r = save_loop cfg env resp data name flag multiple 0 (fst (open_file env name flag s)) name s1"
    have r: "quota (snd (snd r)) = quota s \<and>
        bytes_written (snd (snd r)) \<le> bytes_written s + reserved_bytes cfg data resp"
      using save_loop_frame [of cfg env resp data name flag multiple 0 "fst (open_file env name flag s)" name s1]
        open_file_frame [of env name flag s]
      by (simp add: r_def s1_def)
    have "save_checked cfg env resp data fname same oflag s =
        (case r of (fd1, fnum, s2) \<Rightarrow>
           if fd1 \<noteq> Opened \<and> \<not> (fd1 = Exists \<and> fnum < 999)
           then s2\<lparr>save_exit_status := set_exit_status (save_exit_status s2) 3\<rparr> else s2)"
      unfolding save_checked_def r_def s1_def multiple_def flag_def name_def flag0_def
      by (simp only: False nodel if_False Let_def)
    with r show ?thesis by (cases r) simp
  qed
qed

lemma wrap_long_long_id: "- (2 ^ 63) \<le> x \<Longrightarrow> x < 2 ^ 63 \<Longrightarrow> wrap_long_long x = x"
  by (simp add: wrap_long_long_def)

lemma save_file_flag_reserves:
  assumes "save_file_flag cfg env resp fname flag s = Some s'"
    and "0 < config_quota cfg" and "0 \<le> quota s"
    and "quota s + int (response_bytes cfg resp) < 2 ^ 63"
    and "\<not> spider cfg" and "name_of cfg fname = Some name" and "last name \<noteq> CHR ''/''"
  shows "quota s' = quota s + int (response_bytes cfg resp) \<and>
         bytes_written s' \<le> bytes_written s + response_bytes cfg resp \<and>
         (config_quota cfg \<le> quota s \<longrightarrow>
            bytes_written s' = bytes_written s \<and> files s' = files s \<and>
            stdout s' = stdout s \<and> mtimes s' = mtimes s)"
proof -
  from assms(1,2,5,6,7) obtain data where data: "body resp = Some data"
    by (cases "body resp") (auto simp: save_file_flag_def split: if_splits)
  then have rb: "response_bytes cfg resp = reserved_bytes cfg data resp"
    by (simp add: response_bytes_def)
  let ?s1 = "s\<lparr>quota := quota s + int (reserved_bytes cfg data resp)\<rparr>"
  have wrap: "wrap_long_long (quota s + int (reserved_bytes cfg data resp)) =
      quota s + int (reserved_bytes cfg data resp)"
    using assms(3,4) rb by (intro wrap_long_long_id) simp_all
  show ?thesis
  proof (cases "config_quota cfg \<le> quota s")
    case True
    with assms(1,2,5,6,7) data wrap have "s' = ?s1"
      by (auto simp: save_file_flag_def quota_modify_read_def split: if_splits)
    then show ?thesis by (simp add: rb)
  next
    case below: False
    with assms(1,2,5,6,7) data wrap
    have "s' = save_checked cfg env resp data name (fname = Some Output_document) flag ?s1"
      by (auto simp: save_file_flag_def quota_modify_read_def split: if_splits)
    with save_checked_frame [of cfg env resp data name "fname = Some Output_document" flag ?s1]
      below
    show ?thesis by (simp add: rb)
  qed
qed

lemma save_file_flag_step:
  assumes "save_file_flag cfg env resp fname flag s = Some s'"
    and "0 < config_quota cfg" and "0 \<le> quota s"
    and "quota s + int (response_bytes cfg resp) < 2 ^ 63"
  shows "quota s \<le> quota s' \<and> quota s' \<le> quota s + int (response_bytes cfg resp) \<and>
         int (bytes_written s') - int (bytes_written s) \<le> quota s' - quota s \<and>
         (bytes_written s' = bytes_written s \<or> quota s < config_quota cfg)"
proof (cases "spider cfg \<or> name_of cfg fname = None \<or> last (the (name_of cfg fname)) = CHR ''/''")
  case True
  with assms(1) have "s' = s"
    by (auto simp: save_file_flag_def split: if_splits option.splits)
  then show ?thesis by simp
next
  case False
  then obtain name where "name_of cfg fname = Some name" "last name \<noteq> CHR ''/''" "\<not> spider cfg"
    by auto
  from save_file_flag_reserves [OF assms this(3,1,2)] show ?thesis
    by auto
qed

lemma save_all_bound:
  assumes "0 < config_quota cfg"
    and "\<forall>c\<in>set calls. response_bytes cfg (fst c) \<le> M"
  shows "save_all cfg env calls s = Some s' \<Longrightarrow> 0 \<le> quota s \<Longrightarrow>
     quota s + int (sum_list (map (\<lambda>c. response_bytes cfg (fst c)) calls)) < 2 ^ 63 \<Longrightarrow>
     int (bytes_written s) \<le> quota s \<Longrightarrow>
     int (bytes_written s) < config_quota cfg + int M \<Longrightarrow>
     int (bytes_written s') \<le> quota s' \<and> int (bytes_written s') < config_quota cfg + int M"
  using assms(2)
proof (induction calls arbitrary: s)
  case Nil
  then show ?case by simp
next
  case (Cons c calls)
  obtain resp fname flag where c: "c = (resp, fname, flag)" by (cases c)
  from Cons.prems(1) c obtain s1 where s1: "save_file_flag cfg env resp fname flag s = Some s1"
    and rest: "save_all cfg env calls s1 = Some s'"
    by (auto split: option.splits)
  have small: "quota s + int (response_bytes cfg resp) < 2 ^ 63"
    using Cons.prems(3) c by simp
  from save_file_flag_step [OF s1 assms(1) Cons.prems(2) small]
  have step: "quota s \<le> quota s1" "quota s1 \<le> quota s + int (response_bytes cfg resp)"
    "int (bytes_written s1) - int (bytes_written s) \<le> quota s1 - quota s"
    "bytes_written s1 = bytes_written s \<or> quota s < config_quota cfg"
    by simp_all
  have M: "response_bytes cfg resp \<le> M" using Cons.prems(6) c by simp
  have a: "0 \<le> quota s1" using step(1) Cons.prems(2) by simp
  have b: "quota s1 + int (sum_list (map (\<lambda>c. response_bytes cfg (fst c)) calls)) < 2 ^ 63"
    using step(2) Cons.prems(3) c by simp
  have d: "int (bytes_written s1) \<le> quota s1"
    using step(3) Cons.prems(4) by simp
  have e: "int (bytes_written s1) < config_quota cfg + int M"
    using step Cons.prems(4,5) M by auto
  from Cons.prems(6) have "\<forall>c\<in>set calls. response_bytes cfg (fst c) \<le> M" by simp
  from Cons.IH [OF rest a b d e this] show ?case .
qed

lemma length_data_700: "length data_700 = 700"
  by (simp add: data_700_def)

lemma save_first_body:
  "save_file config_quota_1000 env_writable body_700 (Some (Other_name ''a'')) save_start =
     Some after_first_body"
  apply (simp add: save_file_def save_file_flag_def name_of_def config_quota_1000_def body_700_def
      save_start_def quota_modify_read_def reserved_bytes_def wrap_long_long_def length_data_700)
  apply (simp add: save_checked_def adjusted_name_def open_mode_def open_file_def
      env_writable_def Let_def)
  apply (simp add: save_loop.simps write_response_def write_file_def stored_count_def
      Let_def length_data_700 after_first_body_def)
  done

lemma save_second_body:
  "save_file config_quota_1000 env_writable body_700 (Some (Other_name ''b'')) after_first_body =
     Some after_two_bodies"
  apply (simp add: save_file_def save_file_flag_def name_of_def config_quota_1000_def body_700_def
      after_first_body_def quota_modify_read_def reserved_bytes_def wrap_long_long_def
      length_data_700)
  apply (simp add: save_checked_def adjusted_name_def open_mode_def open_file_def
      env_writable_def Let_def)
  apply (simp add: save_loop.simps write_response_def write_file_def stored_count_def
      Let_def length_data_700 after_two_bodies_def)
  done

lemma save_third_body:
  "save_file config_quota_1000 env_writable body_700 (Some (Other_name ''c'')) after_two_bodies =
     Some after_third_body"
  by (simp add: save_file_def save_file_flag_def name_of_def config_quota_1000_def body_700_def
      after_two_bodies_def quota_modify_read_def reserved_bytes_def wrap_long_long_def
      length_data_700 after_third_body_def)

lemma save_two_bodies:
  "save_all config_quota_1000 env_writable two_bodies save_start = Some after_two_bodies"
  using save_first_body save_second_body by (simp add: two_bodies_def save_file_def)

lemma save_three_bodies:
  "save_all config_quota_1000 env_writable three_bodies save_start = Some after_third_body"
  using save_first_body save_second_body save_third_body
  by (simp add: three_bodies_def save_file_def)

lemma response_bytes_body_700: "response_bytes config_quota_1000 body_700 = 700"
  by (simp add: response_bytes_def body_700_def reserved_bytes_def config_quota_1000_def
      length_data_700)

text \<open>
  C1, as the code has it. With a quota configured and no overflow of the counter, a call
  of \<^verbatim>\<open>_save_file\<close> that passes the first checks adds the length of the response to
  the counter before it writes, and writes no more than that. It leaves files and
  output alone when the counter had reached the quota \<^emph>\<open>before\<close> this reservation.
  Over a run that starts with the counter at 0, the bytes written stay below the
  counter, and below the quota plus the length of the longest response.
\<close>

theorem C1_quota_read_before_reservation:
  assumes "0 < config_quota cfg"
  shows "(save_file_flag cfg env resp fname flag s = Some s' \<and> \<not> spider cfg \<and>
            name_of cfg fname = Some name \<and> last name \<noteq> CHR ''/'' \<and> 0 \<le> quota s \<and>
            quota s + int (response_bytes cfg resp) < 2 ^ 63 \<longrightarrow>
          quota s' = quota s + int (response_bytes cfg resp) \<and>
          bytes_written s' \<le> bytes_written s + response_bytes cfg resp \<and>
          (config_quota cfg \<le> quota s \<longrightarrow>
             bytes_written s' = bytes_written s \<and> files s' = files s \<and>
             stdout s' = stdout s \<and> mtimes s' = mtimes s)) \<and>
         (save_all cfg env calls s0 = Some s1 \<and> quota s0 = 0 \<and> bytes_written s0 = 0 \<and>
            int (sum_list (map (\<lambda>c. response_bytes cfg (fst c)) calls)) < 2 ^ 63 \<and>
            (\<forall>c\<in>set calls. response_bytes cfg (fst c) \<le> longest) \<longrightarrow>
          int (bytes_written s1) \<le> quota s1 \<and>
          int (bytes_written s1) < config_quota cfg + int longest)"
proof -
  have one: "save_file_flag cfg env resp fname flag s = Some s' \<and> \<not> spider cfg \<and>
        name_of cfg fname = Some name \<and> last name \<noteq> CHR ''/'' \<and> 0 \<le> quota s \<and>
        quota s + int (response_bytes cfg resp) < 2 ^ 63 \<longrightarrow>
      quota s' = quota s + int (response_bytes cfg resp) \<and>
      bytes_written s' \<le> bytes_written s + response_bytes cfg resp \<and>
      (config_quota cfg \<le> quota s \<longrightarrow>
         bytes_written s' = bytes_written s \<and> files s' = files s \<and>
         stdout s' = stdout s \<and> mtimes s' = mtimes s)"
    using save_file_flag_reserves [of cfg env resp fname flag s s' name] assms by blast
  have run: "save_all cfg env calls s0 = Some s1 \<and> quota s0 = 0 \<and> bytes_written s0 = 0 \<and>
        int (sum_list (map (\<lambda>c. response_bytes cfg (fst c)) calls)) < 2 ^ 63 \<and>
        (\<forall>c\<in>set calls. response_bytes cfg (fst c) \<le> longest) \<longrightarrow>
      int (bytes_written s1) \<le> quota s1 \<and>
      int (bytes_written s1) < config_quota cfg + int longest"
    using save_all_bound [of cfg calls longest env s0 s1] assms by simp
  from one run show ?thesis by (rule conjI)
qed

text \<open>
  The theorem at the run of three bodies of 700 bytes under a quota of 1000: the third
  call finds the counter at 1400 and writes nothing; 1400 bytes are written in all.
\<close>

theorem C1_quota_read_before_reservation_witness:
  "0 < config_quota config_quota_1000 \<and>
   save_all config_quota_1000 env_writable three_bodies save_start = Some after_third_body \<and>
   save_file_flag config_quota_1000 env_writable body_700 (Some (Other_name ''c'')) O_TRUNC after_two_bodies =
     Some after_third_body \<and>
   files after_third_body = files after_two_bodies \<and>
   int (bytes_written after_third_body) \<le> quota after_third_body \<and>
   int (bytes_written after_third_body) < config_quota config_quota_1000 + 700"
proof -
  have q: "0 < config_quota config_quota_1000" by (simp add: config_quota_1000_def)
  have third: "save_file_flag config_quota_1000 env_writable body_700 (Some (Other_name ''c'')) O_TRUNC
      after_two_bodies = Some after_third_body"
    using save_third_body by (simp add: save_file_def)
  have spider: "\<not> spider config_quota_1000" by (simp add: config_quota_1000_def)
  have counter: "0 \<le> quota after_two_bodies"
    "quota after_two_bodies + int (response_bytes config_quota_1000 body_700) < 2 ^ 63"
    by (simp_all add: response_bytes_body_700 after_two_bodies_def)
  have reached: "config_quota config_quota_1000 \<le> quota after_two_bodies"
    by (simp add: after_two_bodies_def config_quota_1000_def)
  have name: "name_of config_quota_1000 (Some (Other_name ''c'')) = Some ''c''"
    "last ''c'' \<noteq> CHR ''/''"
    by (simp_all add: name_of_def)
  have "config_quota config_quota_1000 \<le> quota after_two_bodies \<longrightarrow>
      bytes_written after_third_body = bytes_written after_two_bodies \<and>
      files after_third_body = files after_two_bodies \<and>
      stdout after_third_body = stdout after_two_bodies \<and>
      mtimes after_third_body = mtimes after_two_bodies"
    using C1_quota_read_before_reservation [OF q, where env = env_writable and resp = body_700
        and fname = "Some (Other_name ''c'')" and name = "''c''" and flag = O_TRUNC
        and s = after_two_bodies
        and s' = after_third_body] third spider counter name
    by blast
  with reached have "files after_third_body = files after_two_bodies" by blast
  moreover have fresh: "quota save_start = 0" "bytes_written save_start = 0"
    by (simp_all add: save_start_def)
  have total: "int (sum_list (map (\<lambda>c. response_bytes config_quota_1000 (fst c)) three_bodies))
      < 2 ^ 63"
    by (simp add: three_bodies_def response_bytes_body_700)
  have longest: "\<forall>c\<in>set three_bodies. response_bytes config_quota_1000 (fst c) \<le> 700"
    by (simp add: three_bodies_def response_bytes_body_700)
  have "int (bytes_written after_third_body) \<le> quota after_third_body \<and>
      int (bytes_written after_third_body) < config_quota config_quota_1000 + int 700"
    using C1_quota_read_before_reservation [OF q, where env = env_writable
        and calls = three_bodies and ?s0.0 = save_start and ?s1.0 = after_third_body
        and longest = 700] save_three_bodies fresh total longest
    by blast
  ultimately show ?thesis using q third save_three_bodies by simp
qed

text \<open>
  C1 as stated fails on the sixth scenario of the specification: the second body is
  written although the counter stands at 1400 after its reservation, above the quota of
  1000, and the bytes written, 1400, exceed the quota.
\<close>

theorem C1_quota_exceeded_counterexample:
  "save_all config_quota_1000 env_writable two_bodies save_start = Some after_two_bodies \<and>
   quota after_two_bodies = 1400 \<and>
   map_of (files after_two_bodies) ''b'' = Some data_700 \<and>
   bytes_written after_two_bodies = 1400 \<and>
   \<not> int (bytes_written after_two_bodies) \<le> config_quota config_quota_1000"
  using save_two_bodies by (simp add: after_two_bodies_def config_quota_1000_def)

section \<open>Properties of the admission of URLs\<close>

lemma queue_update_job [simp]: "queue (update_job j f s) = (queue s)[j := f (queue s ! j)]"
  by (simp add: update_job_def)

lemma frame_update_job [simp]:
  "blacklist (update_job j f s) = blacklist s" "hosts (update_job j f s) = hosts s"
  "domains (update_job j f s) = domains s" "parents (update_job j f s) = parents s"
  by (simp_all add: update_job_def)

lemma add_robots_job_queue:
  "queue (snd (add_robots_job h u s)) =
     queue s @ [(new_job (robots_txt_iri u))\<lparr>job_host := Some (host_id_of u), deferred := Some [u]\<rparr>]"
  "fst (add_robots_job h u s) = length (queue s)"
  "blacklist (snd (add_robots_job h u s)) = blacklist s"
  by (simp_all add: add_robots_job_def queue_add_def Let_def)

lemma hosts_add_frame:
  "queue (snd (hosts_add u s)) = queue s" "blacklist (snd (hosts_add u s)) = blacklist s"
  by (simp_all add: hosts_add_def)

lemma hosts_add_result:
  "hosts_add u s = (r, s1) \<Longrightarrow> queue s1 = queue s \<and> blacklist s1 = blacklist s"
  by (auto simp: hosts_add_def split: if_splits)

lemma robots_step_Inr:
  assumes "robots_step cfg u s = Inr (rj, s1)"
  shows "blacklist s1 = blacklist s \<and>
         (case rj of
            None \<Rightarrow> s1 = s
          | Some j \<Rightarrow> j = length (queue s) \<and> queue s1 = queue s @ [robots_job_for u])"
  using assms
  by (auto simp: robots_step_def add_robots_job_queue robots_job_for_def
      split: if_splits prod.splits option.splits dest: hosts_add_result)

lemma fill_job_levels:
  "level (fill_job cfg env pjob flags nj) =
     (case pjob of None \<Rightarrow> level nj
      | Some job \<Rightarrow> if flag_set flags URL_FLG_REDIRECTION then level nj
                     else wrap_int (level job + 1))"
  "redirection_level (fill_job cfg env pjob flags nj) =
     (case pjob of None \<Rightarrow> redirection_level nj
      | Some job \<Rightarrow> if flag_set flags URL_FLG_REDIRECTION
                     then wrap_int (redirection_level job + 1)
                     else redirection_level nj)"
  by (simp_all add: fill_job_def Let_def split: option.splits)

lemma new_job_levels [simp]: "level (new_job u) = 0" "redirection_level (new_job u) = 0"
  "job_iri (new_job u) = Some u"
  by (simp_all add: new_job_def)

lemma robots_job_for_levels [simp]:
  "level (robots_job_for u) = 0" "redirection_level (robots_job_for u) = 0"
  by (simp_all add: robots_job_for_def)

lemma admit_result:
  assumes "fst (admit u rj s1) = Some m"
    and "case rj of None \<Rightarrow> queue s1 = q | Some j \<Rightarrow> j = length q \<and> queue s1 = q @ [robots_job_for u]"
  shows "m = length q \<and>
         queue (snd (admit u rj s1)) = q @ [if rj \<noteq> None then robots_job_for u else new_job u]"
  using assms
  by (auto simp: admit_def queue_add_def blacklist_add_def split: if_splits option.splits)

lemma finish_job_new:
  assumes "queue s1 = q @ [nj]"
    and "case job of None \<Rightarrow> True | Some p \<Rightarrow> p < length q"
  shows "queue (finish_job cfg env job flags (length q) s1) ! length q =
         fill_job cfg env (case job of None \<Rightarrow> None | Some j \<Rightarrow> Some (q ! j)) flags nj"
  using assms by (auto simp: finish_job_def Let_def nth_append split: option.splits)

lemma enqueue_step_levels:
  assumes "enqueue_step cfg env job flags u rj s1 = (out, s')"
    and "out = Enqueued n \<or> out = Robots_enqueued n"
    and "case rj of None \<Rightarrow> queue s1 = q | Some j \<Rightarrow> j = length q \<and> queue s1 = q @ [robots_job_for u]"
    and "case job of None \<Rightarrow> True | Some p \<Rightarrow> p < length q"
  shows "n = length q \<and>
     level (queue s' ! n) =
       (case job of None \<Rightarrow> 0
        | Some p \<Rightarrow> if flag_set flags URL_FLG_REDIRECTION then 0
                     else wrap_int (level (q ! p) + 1)) \<and>
     redirection_level (queue s' ! n) =
       (case job of None \<Rightarrow> 0
        | Some p \<Rightarrow> if flag_set flags URL_FLG_REDIRECTION
                     then wrap_int (redirection_level (q ! p) + 1)
                     else 0)"
proof -
  from assms(1,2) have m: "fst (admit u rj s1) = Some n"
    and s': "s' = finish_job cfg env job flags n (snd (admit u rj s1))"
    by (auto simp: enqueue_step_def split: option.splits if_splits)
  from admit_result [OF m assms(3)] have n: "n = length q"
    and q1: "queue (snd (admit u rj s1)) = q @ [if rj \<noteq> None then robots_job_for u else new_job u]"
    by simp_all
  have "queue s' ! n =
      fill_job cfg env (case job of None \<Rightarrow> None | Some j \<Rightarrow> Some (q ! j)) flags
        (if rj \<noteq> None then robots_job_for u else new_job u)"
    unfolding s' n by (rule finish_job_new [OF q1 assms(4)])
  then show ?thesis
    using n by (simp add: fill_job_levels split: option.splits)
qed

lemma robots_step_Inl:
  "robots_step cfg u s = Inl (out, s1) \<Longrightarrow>
     (\<exists>rj. out = Deferred rj \<and> s1 = defer_on rj u s) \<or> (\<exists>r. out = Rejected r \<and> s1 = s)"
  by (auto simp: robots_step_def split: if_splits prod.splits option.splits)

lemma url_checks_Inl:
  "url_checks cfg env job url flags s = Inl out \<Longrightarrow> out = Undefined \<or> (\<exists>r. out = Rejected r)"
  by (auto simp: url_checks_def split: if_splits option.splits bool.splits)

lemma url_checks_Inr:
  "url_checks cfg env job url flags s = Inr u \<Longrightarrow>
     parse_iri env url = Some u \<and> (case job of None \<Rightarrow> True | Some p \<Rightarrow> p < length (queue s))"
  by (auto simp: url_checks_def split: if_splits option.splits bool.splits)

lemma add_url_cases:
  assumes "add_url cfg env job url flags s = (out, s')"
  shows "(s' = s \<and> (out = Undefined \<or> (\<exists>r. out = Rejected r))) \<or>
         (\<exists>u. parse_iri env url = Some u \<and> url_checks cfg env job url flags s = Inr u \<and>
              (case job of None \<Rightarrow> True | Some p \<Rightarrow> p < length (queue s)) \<and>
              (robots_step cfg u s = Inl (out, s') \<or>
               (\<exists>rj s1. robots_step cfg u s = Inr (rj, s1) \<and>
                         enqueue_step cfg env job flags u rj s1 = (out, s'))))"
proof (cases "url_checks cfg env job url flags s")
  case (Inl ended)
  with assms url_checks_Inl [OF Inl] show ?thesis
    by (auto simp: add_url_def)
next
  case (Inr u)
  note checked = url_checks_Inr [OF Inr]
  show ?thesis
  proof (cases "robots_step cfg u s")
    case step: (Inl ended)
    with assms Inr checked show ?thesis
      by (cases ended) (auto simp: add_url_def)
  next
    case step: (Inr cont)
    with assms Inr checked show ?thesis
      by (cases cont) (auto simp: add_url_def)
  qed
qed

lemma add_url_levels:
  assumes "add_url cfg env job url flags s = (out, s')"
    and "out = Enqueued n \<or> out = Robots_enqueued n"
  shows "n = length (queue s) \<and>
     level (queue s' ! n) =
       (case job of None \<Rightarrow> 0
        | Some p \<Rightarrow> if flag_set flags URL_FLG_REDIRECTION then 0
                     else wrap_int (level (queue s ! p) + 1)) \<and>
     redirection_level (queue s' ! n) =
       (case job of None \<Rightarrow> 0
        | Some p \<Rightarrow> if flag_set flags URL_FLG_REDIRECTION
                     then wrap_int (redirection_level (queue s ! p) + 1) else 0)"
proof -
  from add_url_cases [OF assms(1)] assms(2) robots_step_Inl [of cfg _ s out s']
  obtain u rj s1 where valid: "case job of None \<Rightarrow> True | Some p \<Rightarrow> p < length (queue s)"
    and step: "robots_step cfg u s = Inr (rj, s1)"
    and enq: "enqueue_step cfg env job flags u rj s1 = (out, s')"
    by blast
  from robots_step_Inr [OF step]
  have "case rj of None \<Rightarrow> queue s1 = queue s
        | Some j \<Rightarrow> j = length (queue s) \<and> queue s1 = queue s @ [robots_job_for u]"
    by (auto split: option.splits)
  from enqueue_step_levels [OF enq assms(2) this valid] show ?thesis .
qed

lemma seed_robots_result:
  "seed_robots cfg u s = (job, s3) \<Longrightarrow>
     (job = None \<and> s3 = s) \<or>
     (job = Some (length (queue s)) \<and> queue s3 = queue s @ [robots_job_for u]) \<or>
     (\<exists>rj. job = Some rj \<and> s3 = defer_on rj u s)"
proof (cases "recursive cfg \<and> robots cfg")
  case False
  moreover assume "seed_robots cfg u s = (job, s3)"
  ultimately show ?thesis by (auto simp: seed_robots_def)
next
  case True
  assume r: "seed_robots cfg u s = (job, s3)"
  obtain h s1 where ha: "hosts_add u s = (h, s1)" by (cases "hosts_add u s")
  show ?thesis
  proof (cases h)
    case (Some hi)
    with r True ha hosts_add_result [OF ha] show ?thesis
      by (auto simp: seed_robots_def add_robots_job_queue robots_job_for_def)
  next
    case None
    show ?thesis
    proof (cases "hosts_get u s")
      case no: None
      with r True ha None show ?thesis by (simp add: seed_robots_def)
    next
      case found: (Some hi)
      show ?thesis
      proof (cases "robot_job (hosts s ! hi)")
        case idle: None
        with r True ha None found have "job = None" "s3 = s"
          by (simp_all add: seed_robots_def)
        then show ?thesis by blast
      next
        case (Some rj)
        with r True ha None found have "job = Some rj" "s3 = defer_on rj u s"
          by (simp_all add: seed_robots_def)
        then show ?thesis by blast
      qed
    qed
  qed
qed

lemma length_queue_defer_on [simp]: "length (queue (defer_on rj u s)) = length (queue s)"
  by (simp add: defer_on_def)

lemma add_url_to_queue_seed_level:
  assumes "add_url_to_queue cfg env url base s = (Some j, s')"
    and "length (queue s') = Suc (length (queue s))"
  shows "j = length (queue s) \<and> level (queue s' ! j) = 0 \<and> redirection_level (queue s' ! j) = 0"
proof -
  from assms(1) obtain u0 where u0: "parse_iri_base env base url = Some u0"
    by (auto simp: add_url_to_queue_def split: option.splits)
  from assms(1) u0 obtain s1 where bl: "blacklist_add u0 s = (Some u0, s1)"
    by (auto simp: add_url_to_queue_def blacklist_add_def split: option.splits prod.splits if_splits)
  then have q1: "queue s1 = queue s" by (auto simp: blacklist_add_def split: if_splits)
  define u where "u = (if recursive cfg \<and> \<not> parent cfg
                         then u0\<lparr>dirlen := dirlen_of (path u0)\<rparr> else u0)"
  define s2 where "s2 = (if recursive cfg \<and> \<not> span_hosts cfg \<and>
                             (case host u of None \<Rightarrow> False
                              | Some h \<Rightarrow> h \<notin> set (exclude_domains env))
                          then s1\<lparr>domains := domains s1 @ [the (host u)]\<rparr> else s1)"
  define job where "job = fst (seed_robots cfg u s2)"
  define s3 where "s3 = snd (seed_robots cfg u s2)"
  define s4 where "s4 = (if recursive cfg \<and> \<not> parent cfg
                          then s3\<lparr>parents := parents s3 @ [u]\<rparr> else s3)"
  define added where "added = (if job = None then queue_add (Some u) s4 else (job, s4))"
  have q2: "queue s2 = queue s" by (simp add: s2_def q1)
  have q4: "queue s4 = queue s3" by (simp add: s4_def)
  have "add_url_to_queue cfg env url base s =
      (Some (the (fst added)),
       update_job (the (fst added))
         (\<lambda>jb. jb\<lparr>local_filename :=
                  (if deferred jb = None then get_local_filename env u
                   else (case job_iri jb of None \<Rightarrow> None
                         | Some v \<Rightarrow> get_local_filename env v))\<rparr>) (snd added))"
    unfolding add_url_to_queue_def Let_def added_def s4_def s3_def job_def s2_def u_def
    by (simp only: u0 bl option.case prod.case)
  with assms(1) have res: "j = the (fst added)"
    "s' = update_job j
       (\<lambda>jb. jb\<lparr>local_filename :=
                  (if deferred jb = None then get_local_filename env u
                   else (case job_iri jb of None \<Rightarrow> None
                         | Some v \<Rightarrow> get_local_filename env v))\<rparr>) (snd added)"
    by auto
  have len: "length (queue s') = length (queue (snd added))" by (simp add: res(2))
  from seed_robots_result [of cfg u s2 job s3]
  consider (none) "job = None" "s3 = s2"
    | (new) "job = Some (length (queue s))" "queue s3 = queue s @ [robots_job_for u]"
    | (held) rj where "job = Some rj" "s3 = defer_on rj u s2"
    by (auto simp: job_def s3_def q2)
  then show ?thesis
  proof cases
    case none
    then have "fst added = Some (length (queue s))" "queue (snd added) = queue s @ [new_job u]"
      by (simp_all add: added_def queue_add_def q4 q2)
    then show ?thesis by (simp add: res)
  next
    case new
    then have "fst added = Some (length (queue s))" "queue (snd added) = queue s @ [robots_job_for u]"
      by (simp_all add: added_def q4)
    then show ?thesis by (simp add: res)
  next
    case held
    then have "length (queue (snd added)) = length (queue s)"
      by (simp add: added_def q4 q2)
    with len assms(2) show ?thesis by simp
  qed
qed

lemma add_url_redirect_limit:
  assumes "flag_set flags URL_FLG_REDIRECTION" "max_redirect cfg \<noteq> 0" "p < length (queue s)"
    "max_redirect cfg \<le> redirection_level (queue s ! p)"
  shows "add_url cfg env (Some p) url flags s = (Rejected ''redirection level'', s)"
  using assms by (simp add: add_url_def url_checks_def)

lemma wrap_int_id: "INT_MIN \<le> x \<Longrightarrow> x < INT_MAX \<Longrightarrow> wrap_int (x + 1) = x + 1"
  by (simp add: wrap_int_def INT_MIN_def INT_MAX_def)

lemma wrap_int_overflow: "wrap_int (INT_MAX + 1) = INT_MIN"
  by (simp add: wrap_int_def INT_MIN_def INT_MAX_def)

lemma add_url_levels_in_range:
  assumes "add_url cfg env job url flags s = (out, s')"
    and "out = Enqueued n \<or> out = Robots_enqueued n"
  shows "n = length (queue s) \<and>
     (job = None \<longrightarrow> level (queue s' ! n) = 0 \<and> redirection_level (queue s' ! n) = 0) \<and>
     (\<forall>p. job = Some p \<and> \<not> flag_set flags URL_FLG_REDIRECTION \<and>
          INT_MIN \<le> level (queue s ! p) \<and> level (queue s ! p) < INT_MAX \<longrightarrow>
        level (queue s' ! n) = level (queue s ! p) + 1 \<and> redirection_level (queue s' ! n) = 0) \<and>
     (\<forall>p. job = Some p \<and> flag_set flags URL_FLG_REDIRECTION \<and>
          INT_MIN \<le> redirection_level (queue s ! p) \<and>
          redirection_level (queue s ! p) < INT_MAX \<longrightarrow>
        redirection_level (queue s' ! n) = redirection_level (queue s ! p) + 1 \<and>
        level (queue s' ! n) = 0)"
  using add_url_levels [OF assms] by (auto simp: wrap_int_id)

lemma flag_set_samples [simp]:
  "flag_set URL_FLG_REDIRECTION URL_FLG_REDIRECTION" "\<not> flag_set 0 URL_FLG_REDIRECTION"
  "\<not> flag_set URL_FLG_REDIRECTION URL_FLG_SITEMAP" "\<not> flag_set 0 URL_FLG_SITEMAP"
  by (simp_all add: flag_set_def URL_FLG_REDIRECTION_def URL_FLG_SITEMAP_def)

lemmas add_url_unfold =
  add_url_def url_checks_def robots_step_def enqueue_step_def admit_def blacklist_add_def queue_add_def
  finish_job_def fill_job_def update_job_def iri_key_of_def sample_iri_def env_admit_def
  new_job_def Let_def

lemma redirect_from_deep_page:
  "fst (add_url config_plain env_admit (Some 0) ''b'' URL_FLG_REDIRECTION deep_page) = Enqueued 1"
  by (simp add: add_url_unfold config_plain_def deep_page_def)

lemma link_from_deep_page:
  "fst (add_url config_plain env_admit (Some 0) ''b'' 0 deep_page) = Enqueued 1"
  by (simp add: add_url_unfold config_plain_def deep_page_def)

lemma seed_on_no_jobs:
  "add_url_to_queue config_plain env_admit ''a'' None no_jobs =
     (Some 0, no_jobs\<lparr>queue := [(new_job (sample_iri ''a''))\<lparr>local_filename := Some ''a''\<rparr>],
                      blacklist := [iri_key_of (sample_iri ''a'')]\<rparr>)"
  by (simp add: add_url_to_queue_def seed_robots_def blacklist_add_def queue_add_def
      update_job_def env_admit_def config_plain_def no_jobs_def new_job_def sample_iri_def Let_def)

text \<open>
  C5, as the code has it. A seed that is put on the queue has level 0. A job that
  \<^verbatim>\<open>add_url\<close> puts on the queue without a parent job has level 0 as well. For a parent
  job, and as long as the addition does not overflow the \<^verbatim>\<open>int\<close>, it gets the level of
  the parent plus one when the URL was discovered, and the redirection level of the
  parent plus one when it is a redirection; in that case its level is not set and stays
  0, the level of a new job, whatever the level of the parent. A redirection from a
  parent whose redirection level has reached a configured \<^verbatim>\<open>max_redirect\<close> is
  rejected, and the queue, the blacklist and the hosts stay as they are.
\<close>

theorem C5_levels_of_new_jobs:
  "(add_url_to_queue cfg env url base s = (Some j, s1) \<and>
      length (queue s1) = Suc (length (queue s)) \<longrightarrow>
    j = length (queue s) \<and> level (queue s1 ! j) = 0 \<and> redirection_level (queue s1 ! j) = 0) \<and>
   (add_url cfg env job url flags s = (out, s2) \<and> (out = Enqueued n \<or> out = Robots_enqueued n) \<longrightarrow>
    n = length (queue s) \<and>
    (job = None \<longrightarrow> level (queue s2 ! n) = 0 \<and> redirection_level (queue s2 ! n) = 0) \<and>
    (\<forall>p. job = Some p \<and> \<not> flag_set flags URL_FLG_REDIRECTION \<and>
         INT_MIN \<le> level (queue s ! p) \<and> level (queue s ! p) < INT_MAX \<longrightarrow>
       level (queue s2 ! n) = level (queue s ! p) + 1 \<and> redirection_level (queue s2 ! n) = 0) \<and>
    (\<forall>p. job = Some p \<and> flag_set flags URL_FLG_REDIRECTION \<and>
         INT_MIN \<le> redirection_level (queue s ! p) \<and>
         redirection_level (queue s ! p) < INT_MAX \<longrightarrow>
       redirection_level (queue s2 ! n) = redirection_level (queue s ! p) + 1 \<and>
       level (queue s2 ! n) = 0)) \<and>
   (flag_set flags URL_FLG_REDIRECTION \<and> max_redirect cfg \<noteq> 0 \<and> p < length (queue s) \<and>
      max_redirect cfg \<le> redirection_level (queue s ! p) \<longrightarrow>
    add_url cfg env (Some p) url flags s = (Rejected ''redirection level'', s))"
proof -
  have seed: "add_url_to_queue cfg env url base s = (Some j, s1) \<and>
      length (queue s1) = Suc (length (queue s)) \<longrightarrow>
    j = length (queue s) \<and> level (queue s1 ! j) = 0 \<and> redirection_level (queue s1 ! j) = 0"
    using add_url_to_queue_seed_level [of cfg env url base s j s1] by blast
  have found: "add_url cfg env job url flags s = (out, s2) \<and>
      (out = Enqueued n \<or> out = Robots_enqueued n) \<longrightarrow>
    n = length (queue s) \<and>
    (job = None \<longrightarrow> level (queue s2 ! n) = 0 \<and> redirection_level (queue s2 ! n) = 0) \<and>
    (\<forall>p. job = Some p \<and> \<not> flag_set flags URL_FLG_REDIRECTION \<and>
         INT_MIN \<le> level (queue s ! p) \<and> level (queue s ! p) < INT_MAX \<longrightarrow>
       level (queue s2 ! n) = level (queue s ! p) + 1 \<and> redirection_level (queue s2 ! n) = 0) \<and>
    (\<forall>p. job = Some p \<and> flag_set flags URL_FLG_REDIRECTION \<and>
         INT_MIN \<le> redirection_level (queue s ! p) \<and>
         redirection_level (queue s ! p) < INT_MAX \<longrightarrow>
       redirection_level (queue s2 ! n) = redirection_level (queue s ! p) + 1 \<and>
       level (queue s2 ! n) = 0)"
    using add_url_levels_in_range [of cfg env job url flags s out s2 n] by blast
  have limit: "flag_set flags URL_FLG_REDIRECTION \<and> max_redirect cfg \<noteq> 0 \<and>
      p < length (queue s) \<and> max_redirect cfg \<le> redirection_level (queue s ! p) \<longrightarrow>
    add_url cfg env (Some p) url flags s = (Rejected ''redirection level'', s)"
    using add_url_redirect_limit [of flags cfg p s env url] by blast
  from seed found limit show ?thesis by (intro conjI)
qed

lemma deep_page_levels:
  "level (queue deep_page ! 0) = 2" "redirection_level (queue deep_page ! 0) = 1"
  "INT_MIN \<le> 2" "(2::int) < INT_MAX" "INT_MIN \<le> 1" "(1::int) < INT_MAX"
  by (simp_all add: deep_page_def INT_MIN_def INT_MAX_def)

text \<open>
  The theorem at a seed, at a link and a redirection found on the page at level 2, and
  at a redirection limit of 1, which the page has reached.
\<close>

theorem C5_levels_of_new_jobs_witness:
  "level (queue (snd (add_url_to_queue config_plain env_admit ''a'' None no_jobs)) ! 0) = 0 \<and>
   level (queue (snd (add_url config_plain env_admit (Some 0) ''b'' 0 deep_page)) ! 1) = 3 \<and>
   redirection_level
     (queue (snd (add_url config_plain env_admit (Some 0) ''b'' URL_FLG_REDIRECTION deep_page)) ! 1)
     = 2 \<and>
   add_url (config_plain\<lparr>max_redirect := 1\<rparr>) env_admit (Some 0) ''b'' URL_FLG_REDIRECTION deep_page =
     (Rejected ''redirection level'', deep_page)"
proof -
  have seed: "add_url_to_queue config_plain env_admit ''a'' None no_jobs =
      (Some 0, snd (add_url_to_queue config_plain env_admit ''a'' None no_jobs)) \<and>
      length (queue (snd (add_url_to_queue config_plain env_admit ''a'' None no_jobs))) =
        Suc (length (queue no_jobs))"
    unfolding seed_on_no_jobs by (simp add: no_jobs_def)
  have a: "level (queue (snd (add_url_to_queue config_plain env_admit ''a'' None no_jobs)) ! 0) = 0"
    using C5_levels_of_new_jobs [where cfg = config_plain and env = env_admit and url = "''a''"
        and base = None and s = no_jobs and j = 0
        and ?s1.0 = "snd (add_url_to_queue config_plain env_admit ''a'' None no_jobs)"] seed
    by blast
  have link: "add_url config_plain env_admit (Some 0) ''b'' 0 deep_page =
      (Enqueued 1, snd (add_url config_plain env_admit (Some 0) ''b'' 0 deep_page))"
    using link_from_deep_page by (simp add: prod_eq_iff)
  have "\<forall>p. Some 0 = Some p \<and> \<not> flag_set 0 URL_FLG_REDIRECTION \<and>
         INT_MIN \<le> level (queue deep_page ! p) \<and> level (queue deep_page ! p) < INT_MAX \<longrightarrow>
       level (queue (snd (add_url config_plain env_admit (Some 0) ''b'' 0 deep_page)) ! 1) =
         level (queue deep_page ! p) + 1 \<and>
       redirection_level (queue (snd (add_url config_plain env_admit (Some 0) ''b'' 0 deep_page)) ! 1)
         = 0"
    using C5_levels_of_new_jobs [where cfg = config_plain and env = env_admit and url = "''b''"
        and job = "Some 0" and flags = 0 and s = deep_page and out = "Enqueued 1" and n = 1
        and ?s2.0 = "snd (add_url config_plain env_admit (Some 0) ''b'' 0 deep_page)"] link
    by blast
  from this [rule_format, of 0]
  have b: "level (queue (snd (add_url config_plain env_admit (Some 0) ''b'' 0 deep_page)) ! 1) = 3"
    by (simp add: deep_page_levels)
  have redirect: "add_url config_plain env_admit (Some 0) ''b'' URL_FLG_REDIRECTION deep_page =
      (Enqueued 1, snd (add_url config_plain env_admit (Some 0) ''b'' URL_FLG_REDIRECTION deep_page))"
    using redirect_from_deep_page by (simp add: prod_eq_iff)
  have "\<forall>p. Some 0 = Some p \<and> flag_set URL_FLG_REDIRECTION URL_FLG_REDIRECTION \<and>
         INT_MIN \<le> redirection_level (queue deep_page ! p) \<and>
         redirection_level (queue deep_page ! p) < INT_MAX \<longrightarrow>
       redirection_level
         (queue (snd (add_url config_plain env_admit (Some 0) ''b'' URL_FLG_REDIRECTION deep_page)) ! 1)
         = redirection_level (queue deep_page ! p) + 1 \<and>
       level (queue (snd (add_url config_plain env_admit (Some 0) ''b'' URL_FLG_REDIRECTION deep_page)) ! 1)
         = 0"
    using C5_levels_of_new_jobs [where cfg = config_plain and env = env_admit and url = "''b''"
        and job = "Some 0" and flags = URL_FLG_REDIRECTION and s = deep_page
        and out = "Enqueued 1" and n = 1
        and ?s2.0 = "snd (add_url config_plain env_admit (Some 0) ''b'' URL_FLG_REDIRECTION deep_page)"]
      redirect
    by blast
  from this [rule_format, of 0]
  have c: "redirection_level
      (queue (snd (add_url config_plain env_admit (Some 0) ''b'' URL_FLG_REDIRECTION deep_page)) ! 1) = 2"
    by (simp add: deep_page_levels)
  have limit: "flag_set URL_FLG_REDIRECTION URL_FLG_REDIRECTION \<and>
      max_redirect (config_plain\<lparr>max_redirect := 1\<rparr>) \<noteq> 0 \<and> 0 < length (queue deep_page) \<and>
      max_redirect (config_plain\<lparr>max_redirect := 1\<rparr>) \<le> redirection_level (queue deep_page ! 0)"
    by (simp add: deep_page_def)
  have d: "add_url (config_plain\<lparr>max_redirect := 1\<rparr>) env_admit (Some 0) ''b'' URL_FLG_REDIRECTION
      deep_page = (Rejected ''redirection level'', deep_page)"
    using C5_levels_of_new_jobs [where cfg = "config_plain\<lparr>max_redirect := 1\<rparr>"
        and flags = URL_FLG_REDIRECTION and p = 0 and s = deep_page and env = env_admit
        and url = "''b''"] limit
    by blast
  from a b c d show ?thesis by (intro conjI)
qed

text \<open>
  C5 as stated fails for a redirection: the job that redirects the page at level 2 is
  put on the queue with level 0, not with the level of the page.
\<close>

theorem C5_redirect_level_counterexample:
  "fst (add_url config_plain env_admit (Some 0) ''b'' URL_FLG_REDIRECTION deep_page) = Enqueued 1 \<and>
   level (queue deep_page ! 0) = 2 \<and>
   level (queue (snd (add_url config_plain env_admit (Some 0) ''b'' URL_FLG_REDIRECTION deep_page)) ! 1)
     = 0 \<and>
   level (queue (snd (add_url config_plain env_admit (Some 0) ''b'' URL_FLG_REDIRECTION deep_page)) ! 1)
     \<noteq> level (queue deep_page ! 0)"
  by (simp add: add_url_unfold config_plain_def deep_page_def)

lemma job_keys_append: "job_keys (a @ b) = job_keys a @ job_keys b"
  by (induction a) (simp_all split: option.splits)


lemma enqueued_by_appended:
  "queue s1 = q @ r \<Longrightarrow> length q = length (queue s) \<Longrightarrow> enqueued_by s s1 = job_keys r"
  by (simp add: enqueued_by_def)

lemma job_iri_fill_job [simp]: "job_iri (fill_job cfg env pjob flags nj) = job_iri nj"
  by (simp add: fill_job_def Let_def split: option.splits)


lemma finish_job_frame [simp]:
  "blacklist (finish_job cfg env job flags n s) = blacklist s"
  "hosts (finish_job cfg env job flags n s) = hosts s"
  by (simp_all add: finish_job_def Let_def split: option.splits)

lemma defer_on_frame [simp]:
  "blacklist (defer_on rj u s) = blacklist s" "hosts (defer_on rj u s) = hosts s"
  by (simp_all add: defer_on_def)


lemma hosts_find_Some:
  "hosts_find k hs i = Some j \<Longrightarrow> i \<le> j \<and> j - i < length hs \<and> host_key (hs ! (j - i)) = k"
proof (induction hs arbitrary: i)
  case Nil
  then show ?case by simp
next
  case (Cons h hs)
  show ?case
  proof (cases "host_key h = k")
    case True
    with Cons.prems show ?thesis by simp
  next
    case False
    with Cons.prems have "hosts_find k hs (Suc i) = Some j" by simp
    from Cons.IH [OF this] have "Suc i \<le> j" "j - Suc i < length hs" "host_key (hs ! (j - Suc i)) = k"
      by simp_all
    then show ?thesis by (simp add: Suc_diff_le nth_Cons')
  qed
qed


lemma hosts_get_Some:
  "hosts_get u s = Some h \<Longrightarrow> h < length (hosts s) \<and> host_key (hosts s ! h) = host_id_of u"
  using hosts_find_Some [of "host_id_of u" "hosts s" 0 h] by (simp add: hosts_get_def)


lemma robots_key_inj: "robots_key k = robots_key k' \<Longrightarrow> k = k'"
  by (cases k, cases k') (simp add: robots_key_def)






lemma key_host_iri [simp]: "key_host (iri_key_of u) = host_id_of u"
  by (simp add: key_host_def iri_key_of_def host_id_of_def)

lemma key_host_robots [simp]: "key_host (robots_key hid) = hid"
  by (simp add: key_host_def robots_key_def)



































end
